theory Spec2Isabelle
  imports Complex_Main "HOL-Library.Word" "HOL-Library.AList"
begin

section \<open>JavaScript values and failures\<close>

text \<open>
  The runner \<^verbatim>\<open>wasm-run.js\<close> is JavaScript. A thrown exception is a value of
  \<open>js_error\<close>; a function that may throw returns \<open>js_error + 'a\<close>. \<open>Thrown s\<close>
  is \<^verbatim>\<open>throw s\<close> of a plain string, and \<open>RangeError\<close>, \<open>TypeError\<close>,
  \<open>SyntaxError\<close> and \<open>AssertionError\<close> are the error classes of the host that the
  code can raise.
\<close>

datatype js_error =
    Thrown string
  | RangeError
  | TypeError
  | SyntaxError
  | AssertionError

type_synonym u8 = "8 word"

text \<open>
  The linear memory of the instance, seen through \<^verbatim>\<open>new Uint8Array(ctx.memory.buffer)\<close>,
  is a list of bytes. An \<^verbatim>\<open>i32\<close> handed from the module to an imported function
  arrives as a JavaScript number holding an integer, so such arguments are \<open>int\<close>.
\<close>

type_synonym memory = "u8 list"

section \<open>Numbers and the values of the struct codec\<close>

text \<open>
  A JavaScript number is a binary64 value. A finite one is given by the rational it
  denotes; \<open>Num 0\<close> is \<open>+0\<close> and \<open>NegZero\<close> is \<open>-0\<close>.
\<close>

datatype jsnum = NaN | PosInfinity | NegInfinity | NegZero | Num rat

text \<open>
  The values that travel through the struct codec are the ones \<^verbatim>\<open>decodeStruct\<close>
  builds: numbers, plain objects (their own properties in insertion order) and
  \<^verbatim>\<open>undefined\<close>.
\<close>

datatype sval = SUndefined | SNumber jsnum | SObject "(string \<times> sval) list"

text \<open>\<^verbatim>\<open>val[key]\<close>: a missing property reads as \<^verbatim>\<open>undefined\<close>, a property of
  \<^verbatim>\<open>undefined\<close> is a \<^verbatim>\<open>TypeError\<close>.\<close>

fun get_prop :: "sval \<Rightarrow> string \<Rightarrow> js_error + sval" where
  "get_prop (SObject kvs) key = (case map_of kvs key of None \<Rightarrow> Inr SUndefined | Some v \<Rightarrow> Inr v)"
| "get_prop SUndefined key = Inl TypeError"
| "get_prop (SNumber n) key = Inr SUndefined"

text \<open>Unary plus, \<^verbatim>\<open>+value\<close>: a plain object converts through the string
  \<^verbatim>\<open>"[object Object]"\<close>, which is not a numeric literal.\<close>

fun to_number :: "sval \<Rightarrow> jsnum" where
  "to_number (SNumber n) = n"
| "to_number SUndefined = NaN"
| "to_number (SObject kvs) = NaN"

section \<open>Typed arrays and buffers of the host\<close>

text \<open>\<^verbatim>\<open>TypedArray.prototype.slice(start, end)\<close>: a negative index counts from the
  end, both are clamped to the array, and an end before the start gives the empty array.\<close>

definition slice_bytes :: "u8 list \<Rightarrow> int \<Rightarrow> int \<Rightarrow> u8 list" where
  "slice_bytes a start end =
     (let len = int (length a);
          k = (if start < 0 then max (len + start) 0 else min start len);
          final = (if end < 0 then max (len + end) 0 else min end len);
          count = max (final - k) 0
      in take (nat count) (drop (nat k) a))"

text \<open>\<^verbatim>\<open>TypedArray.prototype.set(source, offset)\<close>: a \<^verbatim>\<open>RangeError\<close> when the
  offset is negative or the source does not fit.\<close>

definition set_at :: "u8 list \<Rightarrow> u8 list \<Rightarrow> int \<Rightarrow> js_error + u8 list" where
  "set_at target source offset =
     (if offset < 0 then Inl RangeError
      else if int (length source) + offset > int (length target) then Inl RangeError
      else Inr (take (nat offset) target @ source @ drop (nat offset + length source) target))"

text \<open>Little-endian unsigned integers, as \<^verbatim>\<open>Buffer.readUInt8\<close>,
  \<^verbatim>\<open>readUInt16LE\<close>, \<^verbatim>\<open>readUInt32LE\<close> and their \<^verbatim>\<open>write\<close> twins
  lay them out.\<close>

fun le_value :: "u8 list \<Rightarrow> nat" where
  "le_value [] = 0"
| "le_value (b # bs) = unat b + 256 * le_value bs"

fun le_bytes :: "nat \<Rightarrow> nat \<Rightarrow> u8 list" where
  "le_bytes 0 v = []"
| "le_bytes (Suc n) v = of_nat (v mod 256) # le_bytes n (v div 256)"

text \<open>\<^verbatim>\<open>buf.readUInt<8n>LE(offset)\<close>: out of bounds is a \<^verbatim>\<open>RangeError\<close>.\<close>

definition buffer_readUIntLE :: "nat \<Rightarrow> u8 list \<Rightarrow> nat \<Rightarrow> js_error + jsnum" where
  "buffer_readUIntLE n buf offset =
     (if offset + n > length buf then Inl RangeError
      else Inr (Num (of_nat (le_value (take n (drop offset buf))))))"

text \<open>
  \<^verbatim>\<open>buf.writeUInt<8n>LE(value, offset)\<close>: the value goes through unary plus; a value
  above the maximum or below 0 is a \<^verbatim>\<open>RangeError\<close>, but \<^verbatim>\<open>NaN\<close> passes both
  comparisons and is stored as zero bytes; a fraction is truncated by the byte stores.
\<close>

definition buffer_writeUIntLE :: "nat \<Rightarrow> jsnum \<Rightarrow> u8 list \<Rightarrow> nat \<Rightarrow> js_error + u8 list" where
  "buffer_writeUIntLE n v buf offset =
     (let bytes =
        (case v of
           NaN \<Rightarrow> Inr (le_bytes n 0)
         | NegZero \<Rightarrow> Inr (le_bytes n 0)
         | PosInfinity \<Rightarrow> Inl RangeError
         | NegInfinity \<Rightarrow> Inl RangeError
         | Num q \<Rightarrow> if q > 2 ^ (8 * n) - 1 \<or> q < 0 then Inl RangeError
                    else Inr (le_bytes n (nat \<lfloor>q\<rfloor>)))
      in case bytes of
           Inl e \<Rightarrow> Inl e
         | Inr bs \<Rightarrow> if offset + n > length buf then Inl RangeError
                     else Inr (take offset buf @ bs @ drop (offset + n) buf))"

text \<open>\<^verbatim>\<open>buf.fill(value, offset, end)\<close>.\<close>

definition buffer_fill :: "u8 \<Rightarrow> u8 list \<Rightarrow> nat \<Rightarrow> nat \<Rightarrow> js_error + u8 list" where
  "buffer_fill v buf offset end =
     (if end > length buf then Inl RangeError
      else Inr (take offset buf @ replicate (end - offset) v @ drop end buf))"

section \<open>Helpers of the runner\<close>

subsection \<open>\<^verbatim>\<open>EncodeBuffer\<close>\<close>

text \<open>
  \<^verbatim>\<open>
  constructor(bufferSize) {
    bufferSize = bufferSize || 65536;
    this.pos = 0;
    this.buff = Buffer.alloc(bufferSize);
  \<close>
\<close>

record EncodeBuffer =
  pos :: nat
  buff :: "u8 list"

definition new_EncodeBuffer :: "nat \<Rightarrow> EncodeBuffer" where
  "new_EncodeBuffer bufferSize =
     (let bufferSize = (if bufferSize = 0 then 65536 else bufferSize)
      in \<lparr>pos = 0, buff = replicate bufferSize 0\<rparr>)"

text \<open>
  The constructor installs one method for every \<^verbatim>\<open>write...\<close> method of
  \<^verbatim>\<open>Buffer\<close>; the width comes from \<^verbatim>\<open>r.DecodeStream.TYPES\<close>.
  \<^verbatim>\<open>
  EncodeBuffer.prototype[key] = function(value) {
    this.buff[key](value, this.pos);
    return this.pos += bytes;
  };
  \<close>
\<close>

datatype number_type = UInt8 | UInt16 | UInt32

fun TYPES :: "number_type \<Rightarrow> nat" where
  "TYPES UInt8 = 1"
| "TYPES UInt16 = 2"
| "TYPES UInt32 = 4"

definition encoder_write :: "number_type \<Rightarrow> sval \<Rightarrow> EncodeBuffer \<Rightarrow> js_error + EncodeBuffer" where
  "encoder_write t v this =
     (case buffer_writeUIntLE (TYPES t) (to_number v) (buff this) (pos this) of
        Inl e \<Rightarrow> Inl e
      | Inr b \<Rightarrow> Inr (this\<lparr>buff := b, pos := pos this + TYPES t\<rparr>))"

text \<open>\<^verbatim>\<open>get buffer() { return this.buff.slice(0, this.pos); }\<close>\<close>

definition encoder_buffer :: "EncodeBuffer \<Rightarrow> u8 list" where
  "encoder_buffer this = slice_bytes (buff this) 0 (int (pos this))"

text \<open>
  \<^verbatim>\<open>
  fill(val, length) {
    this.buff.fill(val, this.pos, this.pos + length);
    return this.pos += length;
  }
  \<close>
\<close>

definition encoder_fill :: "u8 \<Rightarrow> nat \<Rightarrow> EncodeBuffer \<Rightarrow> js_error + EncodeBuffer" where
  "encoder_fill val len this =
     (case buffer_fill val (buff this) (pos this) (pos this + len) of
        Inl e \<Rightarrow> Inl e
      | Inr b \<Rightarrow> Inr (this\<lparr>buff := b, pos := pos this + len\<rparr>))"

subsection \<open>The schema library (external)\<close>

text \<open>
  The schemas are values of the \<^verbatim>\<open>restructure\<close> library: a little-endian unsigned
  number (\<^verbatim>\<open>r.uint8\<close>, \<^verbatim>\<open>r.uint16le\<close>, \<^verbatim>\<open>r.uint32le\<close>), a reserved span
  \<^verbatim>\<open>new r.Reserved(type, count)\<close> and a struct \<^verbatim>\<open>new r.Struct({...})\<close> of named
  fields in order.
\<close>

datatype rtype = NumberT number_type | Reserved rtype nat | Struct "(string \<times> rtype) list"

fun rsize :: "rtype \<Rightarrow> nat" and rsize_fields :: "(string \<times> rtype) list \<Rightarrow> nat" where
  "rsize (NumberT t) = TYPES t"
| "rsize (Reserved t count) = rsize t * count"
| "rsize (Struct flds) = rsize_fields flds"
| "rsize_fields [] = 0"
| "rsize_fields ((key, t) # flds) = rsize t + rsize_fields flds"

text \<open>
  Decoding reads from a \<^verbatim>\<open>DecodeStream\<close>, a buffer and a position. A number is read
  at the position; a reserved span moves the position and yields \<^verbatim>\<open>undefined\<close>; a
  struct decodes its fields in order and keeps every value that is not
  \<^verbatim>\<open>undefined\<close>.
\<close>

fun decode :: "rtype \<Rightarrow> u8 list \<Rightarrow> nat \<Rightarrow> js_error + sval \<times> nat"
  and decode_fields :: "(string \<times> rtype) list \<Rightarrow> u8 list \<Rightarrow> nat \<Rightarrow> (string \<times> sval) list
        \<Rightarrow> js_error + sval \<times> nat" where
  "decode (NumberT t) buf p =
     (case buffer_readUIntLE (TYPES t) buf p of
        Inl e \<Rightarrow> Inl e
      | Inr v \<Rightarrow> Inr (SNumber v, p + TYPES t))"
| "decode (Reserved t count) buf p = Inr (SUndefined, p + rsize t * count)"
| "decode (Struct flds) buf p = decode_fields flds buf p []"
| "decode_fields [] buf p res = Inr (SObject res, p)"
| "decode_fields ((key, t) # flds) buf p res =
     (case decode t buf p of
        Inl e \<Rightarrow> Inl e
      | Inr (v, p') \<Rightarrow>
          decode_fields flds buf p' (if v = SUndefined then res else AList.update key v res))"

text \<open>
  Encoding writes to the \<^verbatim>\<open>EncodeBuffer\<close>: a number through the write method of its
  type, a reserved span through \<^verbatim>\<open>stream.fill(0, size)\<close>, a struct field by field
  with \<^verbatim>\<open>type.encode(stream, val[key], ctx)\<close>.
\<close>

fun encode :: "rtype \<Rightarrow> sval \<Rightarrow> EncodeBuffer \<Rightarrow> js_error + EncodeBuffer"
  and encode_fields :: "(string \<times> rtype) list \<Rightarrow> sval \<Rightarrow> EncodeBuffer \<Rightarrow> js_error + EncodeBuffer" where
  "encode (NumberT t) val stream = encoder_write t val stream"
| "encode (Reserved t count) val stream = encoder_fill 0 (rsize t * count) stream"
| "encode (Struct flds) val stream = encode_fields flds val stream"
| "encode_fields [] val stream = Inr stream"
| "encode_fields ((key, t) # flds) val stream =
     (case get_prop val key of
        Inl e \<Rightarrow> Inl e
      | Inr v \<Rightarrow>
          (case encode t v stream of
             Inl e \<Rightarrow> Inl e
           | Inr stream' \<Rightarrow> encode_fields flds val stream'))"

subsection \<open>\<^verbatim>\<open>encodeStruct\<close> and \<^verbatim>\<open>decodeStruct\<close>\<close>

text \<open>
  \<^verbatim>\<open>
  function encodeStruct(T, data) {
    let encoder = new EncodeBuffer(T.size());
    T.encode(encoder, data);
    assert.equal(encoder.buffer.length, T.size());
    return encoder.buffer;
  };
  \<close>
\<close>

definition encodeStruct :: "rtype \<Rightarrow> sval \<Rightarrow> js_error + u8 list" where
  "encodeStruct T data =
     (case encode T data (new_EncodeBuffer (rsize T)) of
        Inl e \<Rightarrow> Inl e
      | Inr encoder \<Rightarrow>
          if length (encoder_buffer encoder) = rsize T then Inr (encoder_buffer encoder)
          else Inl AssertionError)"

text \<open>
  \<^verbatim>\<open>
  function decodeStruct(T, buff) {
    buff = new Buffer(buff);
    assert.equal(buff.length, T.size());
    return T.decode(new r.DecodeStream(buff));
  };
  \<close>
\<close>

definition decodeStruct :: "rtype \<Rightarrow> u8 list \<Rightarrow> js_error + sval" where
  "decodeStruct T bytes =
     (if length bytes = rsize T
      then (case decode T bytes 0 of Inl e \<Rightarrow> Inl e | Inr (v, p) \<Rightarrow> Inr v)
      else Inl AssertionError)"

section \<open>The capability library (external)\<close>

text \<open>
  \<^verbatim>\<open>wasi.wasiImport\<close> belongs to the host. Each of its functions is a parameter of the
  model: it takes its arguments and the memory, and returns the memory it leaves and its
  result code.
\<close>

record wasiImport =
  fd_seek :: "int \<Rightarrow> int \<Rightarrow> int \<Rightarrow> int \<Rightarrow> memory \<Rightarrow> memory \<times> int"
  fd_filestat_get :: "int \<Rightarrow> int \<Rightarrow> memory \<Rightarrow> memory \<times> int"
  path_filestat_get :: "int \<Rightarrow> int \<Rightarrow> int \<Rightarrow> int \<Rightarrow> int \<Rightarrow> memory \<Rightarrow> memory \<times> int"

section \<open>The \<^verbatim>\<open>wasi_unstable\<close> compatibility layer\<close>

subsection \<open>The two layouts of the status record\<close>

text \<open>
  \<^verbatim>\<open>
  const uint8  = r.uint8;
  const uint16 = r.uint16le;
  const uint32 = r.uint32le;
  const uint64 = new r.Struct({ lo: uint32, hi: uint32 });
  \<close>
\<close>

definition uint8 :: rtype where "uint8 = NumberT UInt8"
definition uint16 :: rtype where "uint16 = NumberT UInt16"
definition uint32 :: rtype where "uint32 = NumberT UInt32"
definition uint64 :: rtype where "uint64 = Struct [(''lo'', uint32), (''hi'', uint32)]"

text \<open>
  \<^verbatim>\<open>
  const wasi_snapshot_preview1_filestat_t = new r.Struct({
      dev: uint64,   // 0
      ino: uint64,   // 8
      ftype: uint8,  // 16
      pad0:  new r.Reserved(uint8, 7),
      nlink: uint64, // 24
      size: uint64,  // 32
      atim: uint64,  // 40
      mtim: uint64,  // 48
      ctim: uint64   // 56
  }); // size = 64
  \<close>
\<close>

definition wasi_snapshot_preview1_filestat_t :: rtype where
  "wasi_snapshot_preview1_filestat_t = Struct
     [(''dev'', uint64),
      (''ino'', uint64),
      (''ftype'', uint8),
      (''pad0'', Reserved uint8 7),
      (''nlink'', uint64),
      (''size'', uint64),
      (''atim'', uint64),
      (''mtim'', uint64),
      (''ctim'', uint64)]"

text \<open>
  \<^verbatim>\<open>
  const wasi_unstable_filestat_t = new r.Struct({
      dev: uint64,   // 0
      ino: uint64,   // 8
      ftype: uint8,  // 16
      pad0:  new r.Reserved(uint8, 3),
      nlink: uint32, // 20
      size: uint64,  // 24
      atim: uint64,  // 32
      mtim: uint64,  // 40
      ctim: uint64   // 48
  }); // size = 56
  \<close>
\<close>

definition wasi_unstable_filestat_t :: rtype where
  "wasi_unstable_filestat_t = Struct
     [(''dev'', uint64),
      (''ino'', uint64),
      (''ftype'', uint8),
      (''pad0'', Reserved uint8 3),
      (''nlink'', uint32),
      (''size'', uint64),
      (''atim'', uint64),
      (''mtim'', uint64),
      (''ctim'', uint64)]"

subsection \<open>\<^verbatim>\<open>fd_seek\<close>\<close>

text \<open>
  \<^verbatim>\<open>
  switch (whence) {
  case 0: whence = 1; break;  // cur
  case 1: whence = 2; break;  // end
  case 2: whence = 0; break;  // set
  default: throw "Invalid whence";
  }
  \<close>
\<close>

definition whence_switch :: "int \<Rightarrow> js_error + int" where
  "whence_switch whence =
     (if whence = 0 then Inr 1
      else if whence = 1 then Inr 2
      else if whence = 2 then Inr 0
      else Inl (Thrown ''Invalid whence''))"

text \<open>
  The wrapper returns the memory together with either the exception or the result code
  of \<^verbatim>\<open>wasi.wasiImport.fd_seek(fd, offset, whence, result)\<close>.
\<close>

definition wasi_unstable_fd_seek ::
  "wasiImport \<Rightarrow> int \<Rightarrow> int \<Rightarrow> int \<Rightarrow> int \<Rightarrow> memory \<Rightarrow> memory \<times> (js_error + int)" where
  "wasi_unstable_fd_seek wasi fd offset whence result mem =
     (case whence_switch whence of
        Inl e \<Rightarrow> (mem, Inl e)
      | Inr whence' \<Rightarrow>
          (case fd_seek wasi fd offset whence' result mem of
             (mem', res) \<Rightarrow> (mem', Inr res)))"

subsection \<open>\<^verbatim>\<open>fd_filestat_get\<close> and \<^verbatim>\<open>path_filestat_get\<close>\<close>

text \<open>
  \<^verbatim>\<open>
  imports.wasi_unstable.fd_filestat_get = function(fd, buf) {
      const mem = new Uint8Array(ctx.memory.buffer);
      const backup = mem.slice(buf+56, buf+(64-56));

      const res = wasi.wasiImport.fd_filestat_get(fd, buf);

      const modified = encodeStruct(wasi_unstable_filestat_t,
                                    decodeStruct(wasi_snapshot_preview1_filestat_t,
                                                 mem.slice(buf, buf+64)));
      mem.set(modified, buf);     // write new struct
      mem.set(backup, buf+56);    // restore backup
      return res;
  }
  \<close>
  The wrapper returns the memory it leaves, and the exception it threw or the result code.
  An exception leaves the memory as it was at the throw.
\<close>

definition wasi_unstable_fd_filestat_get ::
  "wasiImport \<Rightarrow> int \<Rightarrow> int \<Rightarrow> memory \<Rightarrow> memory \<times> (js_error + int)" where
  "wasi_unstable_fd_filestat_get wasi fd buf mem =
     (let backup = slice_bytes mem (buf + 56) (buf + (64 - 56));
          (mem, res) = fd_filestat_get wasi fd buf mem
      in case decodeStruct wasi_snapshot_preview1_filestat_t (slice_bytes mem buf (buf + 64)) of
           Inl e \<Rightarrow> (mem, Inl e)
         | Inr data \<Rightarrow>
        (case encodeStruct wasi_unstable_filestat_t data of
           Inl e \<Rightarrow> (mem, Inl e)
         | Inr modified \<Rightarrow>
        (case set_at mem modified buf of
           Inl e \<Rightarrow> (mem, Inl e)
         | Inr mem \<Rightarrow>
        (case set_at mem backup (buf + 56) of
           Inl e \<Rightarrow> (mem, Inl e)
         | Inr mem \<Rightarrow> (mem, Inr res)))))"

text \<open>
  \<^verbatim>\<open>
  imports.wasi_unstable.path_filestat_get = function(fd, flags, path, path_len, buf) {
      const mem = new Uint8Array(ctx.memory.buffer);
      const backup = mem.slice(buf+56, buf+(64-56));

      const res = wasi.wasiImport.path_filestat_get(fd, flags, path, path_len, buf);

      const modified = encodeStruct(wasi_unstable_filestat_t,
                                    decodeStruct(wasi_snapshot_preview1_filestat_t,
                                                 mem.slice(buf, buf+64)));
      mem.set(modified, buf);     // write new struct
      mem.set(backup, buf+56);    // restore backup
      return res;
  }
  \<close>
\<close>

definition wasi_unstable_path_filestat_get ::
  "wasiImport \<Rightarrow> int \<Rightarrow> int \<Rightarrow> int \<Rightarrow> int \<Rightarrow> int \<Rightarrow> memory \<Rightarrow> memory \<times> (js_error + int)" where
  "wasi_unstable_path_filestat_get wasi fd flags path path_len buf mem =
     (let backup = slice_bytes mem (buf + 56) (buf + (64 - 56));
          (mem, res) = path_filestat_get wasi fd flags path path_len buf mem
      in case decodeStruct wasi_snapshot_preview1_filestat_t (slice_bytes mem buf (buf + 64)) of
           Inl e \<Rightarrow> (mem, Inl e)
         | Inr data \<Rightarrow>
        (case encodeStruct wasi_unstable_filestat_t data of
           Inl e \<Rightarrow> (mem, Inl e)
         | Inr modified \<Rightarrow>
        (case set_at mem modified buf of
           Inl e \<Rightarrow> (mem, Inl e)
         | Inr mem \<Rightarrow>
        (case set_at mem backup (buf + 56) of
           Inl e \<Rightarrow> (mem, Inl e)
         | Inr mem \<Rightarrow> (mem, Inr res)))))"

section \<open>The module signature introspector\<close>

text \<open>
  \<^verbatim>\<open>parseWasmInfo\<close> reads the binary with the external Binaryen library. What it asks
  of the library is modelled as data: for every function
  \<^verbatim>\<open>Binaryen.getFunctionInfo(module.getFunctionByIndex(i))\<close> with its internal name and
  its parameter and result types already expanded (\<^verbatim>\<open>Binaryen.expandType\<close>), and for
  every export \<^verbatim>\<open>Binaryen.getExportInfo(module.getExportByIndex(i))\<close> with its kind,
  its public name and, as value, the internal name of what it exports.
\<close>

datatype binaryen_type =
    B_none | B_i32 | B_i64 | B_f32 | B_f64 | B_v128 | B_funcref | B_anyref | B_nullref | B_exnref
  | B_other nat

text \<open>
  \<^verbatim>\<open>
  function decodeType(t) {
      switch (t) {
      case Binaryen.none: return "none";
      case Binaryen.i32:  return "i32";
      case Binaryen.i64:  return "i64";
      case Binaryen.f32:  return "f32";
      case Binaryen.f64:  return "f64";
      case Binaryen.v128: return "v128";
      case Binaryen.funcref: return "funcref";
      case Binaryen.anyref:  return "anyref";
      case Binaryen.nullref: return "nullref";
      case Binaryen.exnref:  return "externref";
      default:               return "unknown";
      }
  }
  \<close>
\<close>

fun decodeType :: "binaryen_type \<Rightarrow> string" where
  "decodeType B_none = ''none''"
| "decodeType B_i32 = ''i32''"
| "decodeType B_i64 = ''i64''"
| "decodeType B_f32 = ''f32''"
| "decodeType B_f64 = ''f64''"
| "decodeType B_v128 = ''v128''"
| "decodeType B_funcref = ''funcref''"
| "decodeType B_anyref = ''anyref''"
| "decodeType B_nullref = ''nullref''"
| "decodeType B_exnref = ''externref''"
| "decodeType (B_other n) = ''unknown''"

record FunctionInfo =
  info_name :: string
  info_params :: "binaryen_type list"
  info_results :: "binaryen_type list"

datatype external_kind =
  ExternalFunction | ExternalTable | ExternalMemory | ExternalGlobal | ExternalEvent

record ExportInfo =
  exp_kind :: external_kind
  exp_name :: string
  exp_value :: string

record binaryen_module =
  module_functions :: "FunctionInfo list"
  module_exports :: "ExportInfo list"

text \<open>
  The result holds objects by reference. Each iteration of the first loop creates one
  signature object; \<open>objects\<close> is the store of the objects created, in creation order, and
  a reference is a position in it. \<^verbatim>\<open>funcsByIndex\<close> (an array) and
  \<^verbatim>\<open>funcsByName\<close> (a plain object used as a dictionary) map an index and a name to a
  reference. A name whose value is \<^verbatim>\<open>undefined\<close> reads like an absent name, and both
  are \<open>None\<close>.
\<close>

record signature =
  index :: nat
  params :: "string list"
  results :: "string list"

record wasm_info =
  objects :: "signature list"
  funcsByIndex :: "nat \<rightharpoonup> nat"
  funcsByName :: "string \<rightharpoonup> nat"

text \<open>
  \<^verbatim>\<open>
  for (let i = 0; i < module.getNumFunctions(); i++) {
      let info = Binaryen.getFunctionInfo(module.getFunctionByIndex(i));

      result.funcsByIndex[i] = result.funcsByName[info.name] = {
          index:      i,
          params:     Binaryen.expandType(info.params).map(x => decodeType(x)),
          results:    Binaryen.expandType(info.results).map(x => decodeType(x)),
      }
  }
  \<close>
\<close>

fun functions_loop :: "nat \<Rightarrow> FunctionInfo list \<Rightarrow> wasm_info \<Rightarrow> wasm_info" where
  "functions_loop i [] result = result"
| "functions_loop i (info # rest) result =
     functions_loop (i + 1) rest
       (let ref = length (objects result);
            obj = \<lparr>index = i,
                   params = map decodeType (info_params info),
                   results = map decodeType (info_results info)\<rparr>
        in result\<lparr>objects := objects result @ [obj],
                  funcsByName := (funcsByName result)(info_name info \<mapsto> ref),
                  funcsByIndex := (funcsByIndex result)(i \<mapsto> ref)\<rparr>)"

text \<open>
  \<^verbatim>\<open>
  for (let i = 0; i < module.getNumExports(); i++) {
      let exp = Binaryen.getExportInfo(module.getExportByIndex(i));

      if (exp.kind == Binaryen.ExternalFunction) {
          let item = result.funcsByName[exp.value];
          result.funcsByName[exp.name] = item;
      }
  }
  \<close>
\<close>

fun exports_loop :: "ExportInfo list \<Rightarrow> wasm_info \<Rightarrow> wasm_info" where
  "exports_loop [] result = result"
| "exports_loop (ex # rest) result =
     exports_loop rest
       (if exp_kind ex = ExternalFunction
        then (let item = funcsByName result (exp_value ex)
              in result\<lparr>funcsByName := (funcsByName result)(exp_name ex := item)\<rparr>)
        else result)"

definition parseWasmInfo :: "binaryen_module \<Rightarrow> wasm_info" where
  "parseWasmInfo m =
     exports_loop (module_exports m)
       (functions_loop 0 (module_functions m)
          \<lparr>objects = [], funcsByIndex = Map.empty, funcsByName = Map.empty\<rparr>)"

section \<open>Main: analysis and the choice of what to run\<close>

text \<open>
  \<^verbatim>\<open>
  let wasmInfo = {}
  let expectedImports = WebAssembly.Module.imports(module);
  for (const i of expectedImports) {
      if (i.module.startsWith("wasi_")) {
          wasmInfo.wasiVersion = i.module;
      }
  }
  wasmInfo.exportedFuncs = WebAssembly.Module.exports(module)
      .filter(x => x.kind == 'function').map(x => x.name);
  \<close>
  An import is given by its module name, an export by its kind and its name; an unset
  \<^verbatim>\<open>wasiVersion\<close> is \<open>None\<close>.
\<close>

record wasmInfo =
  wasiVersion :: "string option"
  exportedFuncs :: "string list"

definition startsWith :: "string \<Rightarrow> string \<Rightarrow> bool" where
  "startsWith s p = (take (length p) s = p)"

fun wasiVersion_loop :: "string list \<Rightarrow> string option \<Rightarrow> string option" where
  "wasiVersion_loop [] v = v"
| "wasiVersion_loop (i_module # rest) v =
     wasiVersion_loop rest (if startsWith i_module ''wasi_'' then Some i_module else v)"

definition analyze :: "string list \<Rightarrow> (string \<times> string) list \<Rightarrow> wasmInfo" where
  "analyze expectedImports module_exps =
     \<lparr>wasiVersion = wasiVersion_loop expectedImports None,
      exportedFuncs = map snd (filter (\<lambda>x. fst x = ''function'') module_exps)\<rparr>"

text \<open>
  \<^verbatim>\<open>argv.invoke\<close> is a string or \<^verbatim>\<open>undefined\<close>. The tests \<^verbatim>\<open>!argv.invoke\<close>,
  \<^verbatim>\<open>!wasmInfo.wasiVersion\<close> and \<^verbatim>\<open>if (argv.invoke)\<close> are tests of truthiness:
  \<^verbatim>\<open>undefined\<close> and the empty string are falsy, every other string is truthy.
\<close>

definition truthy :: "string option \<Rightarrow> bool" where
  "truthy v = (case v of None \<Rightarrow> False | Some s \<Rightarrow> s \<noteq> [])"

text \<open>
  \<^verbatim>\<open>
  // If no WASI is detected, and no func specified -> try to run the only function
  if (!argv.invoke && !wasmInfo.wasiVersion && wasmInfo.exportedFuncs.length == 1) {
      argv.invoke = wasmInfo.exportedFuncs[0];
  }
  \<close>
\<close>

definition auto_invoke :: "string option \<Rightarrow> wasmInfo \<Rightarrow> string option" where
  "auto_invoke invoke info =
     (if \<not> truthy invoke \<and> \<not> truthy (wasiVersion info) \<and> length (exportedFuncs info) = 1
      then Some (exportedFuncs info ! 0) else invoke)"

text \<open>
  \<^verbatim>\<open>
  let wasi;
  let ctx = {};
  if (wasmInfo.wasiVersion)
  {
      const { WASI } = require('wasi');
      wasi = new WASI({ ... });

      if (wasmInfo.wasiVersion == "wasi_snapshot_preview1") {
          imports.wasi_snapshot_preview1 = wasi.wasiImport;
      } else if (wasmInfo.wasiVersion == "wasi_unstable") {
          ...
      } else {
          fatal(`Unsupported WASI version: ${wasmInfo.wasiVersion}`);
      }
  }
  \<close>
  The variable \<^verbatim>\<open>wasi\<close> holds an object only when a capability namespace was detected;
  otherwise it stays \<^verbatim>\<open>undefined\<close>. \<open>wasi_defined\<close> tells which, and
  \<open>unsupported_version\<close> is the case that ends in \<^verbatim>\<open>fatal\<close>.
\<close>

definition wasi_defined :: "wasmInfo \<Rightarrow> bool" where
  "wasi_defined info = truthy (wasiVersion info)"

definition unsupported_version :: "wasmInfo \<Rightarrow> bool" where
  "unsupported_version info =
     (truthy (wasiVersion info)
      \<and> wasiVersion info \<noteq> Some ''wasi_snapshot_preview1''
      \<and> wasiVersion info \<noteq> Some ''wasi_unstable'')"

text \<open>
  \<^verbatim>\<open>
  if (argv.invoke) {
      if (!wasmInfo.exportedFuncs.includes(argv.invoke)) {
          fatal(`Function not found: ${argv.invoke}`);
      }
      ...
      let func = instance.exports[argv.invoke];
      let result = func(...args);
  } else {
      ctx.memory = instance.exports.memory;
      let exitcode = wasi.start(instance);
      ...
  }
  \<close>
  The outcome says where the run goes, the instantiation by the engine taken to succeed:
  \<open>Fatal\<close> with the message of \<^verbatim>\<open>fatal\<close>, which ends the process;
  \<open>InvokeFunction\<close> with the name of the export that is called; \<open>WasiStart\<close> when
  \<^verbatim>\<open>wasi.start(instance)\<close> is entered; \<open>Threw\<close> with the exception that ends the
  run. In the else branch \<^verbatim>\<open>wasi.start\<close> is read from \<^verbatim>\<open>wasi\<close>: when \<^verbatim>\<open>wasi\<close>
  is \<^verbatim>\<open>undefined\<close> that is a \<^verbatim>\<open>TypeError\<close>.
\<close>

datatype outcome = Fatal string | InvokeFunction string | WasiStart | Threw js_error

definition start_wasi :: "wasmInfo \<Rightarrow> outcome" where
  "start_wasi info = (if wasi_defined info then WasiStart else Threw TypeError)"

definition dispatch :: "string option \<Rightarrow> wasmInfo \<Rightarrow> outcome" where
  "dispatch invoke info =
     (if unsupported_version info then
        (case wasiVersion info of
           Some v \<Rightarrow> Fatal (''Unsupported WASI version: '' @ v)
         | None \<Rightarrow> start_wasi info)
      else
        (let invoke = auto_invoke invoke info
         in if truthy invoke then
              (case invoke of
                 Some name \<Rightarrow>
                   if name \<notin> set (exportedFuncs info) then Fatal (''Function not found: '' @ name)
                   else InvokeFunction name
               | None \<Rightarrow> start_wasi info)
            else start_wasi info))"

section \<open>Numbers from strings (host)\<close>

text \<open>
  \<^verbatim>\<open>parseInt\<close>, \<^verbatim>\<open>parseFloat\<close> and \<^verbatim>\<open>BigInt\<close> are functions of the language,
  modelled after their definition in the ECMAScript standard. A string is a list of
  code units below 256. The licence the standard gives an implementation for decimal
  literals of more than 20 significant digits is not used: every literal is rounded
  exactly.
\<close>

subsection \<open>Rounding to binary64\<close>

function bit_length :: "int \<Rightarrow> int" where
  "bit_length n = (if n \<le> 0 then 0 else 1 + bit_length (n div 2))"
  by pat_completeness auto
termination
  by (relation "measure nat") auto

declare bit_length.simps [simp del]

definition pow2 :: "int \<Rightarrow> rat" where
  "pow2 e = (if 0 \<le> e then 2 ^ nat e else 1 / 2 ^ nat (- e))"

definition pow10 :: "int \<Rightarrow> rat" where
  "pow10 e = (if 0 \<le> e then 10 ^ nat e else 1 / 10 ^ nat (- e))"

text \<open>The exponent of the leading bit of a positive rational.\<close>

definition ilog2 :: "rat \<Rightarrow> int" where
  "ilog2 a =
     (let (n, d) = quotient_of a;
          k = bit_length n - bit_length d
      in if pow2 k \<le> a then k else k - 1)"

definition round_half_even :: "rat \<Rightarrow> int" where
  "round_half_even x =
     (let f = \<lfloor>x\<rfloor>; d = x - of_int f
      in if d < 1 / 2 then f else if 1 / 2 < d then f + 1 else if even f then f else f + 1)"

text \<open>
  The Number value for a rational: the nearest binary64 value, ties to even, with 53
  bits of significand, the least exponent \<open>-1022\<close> (below it the spacing stays
  \<open>2 ^ -1074\<close>) and infinity from \<open>2 ^ 1024\<close> on.
\<close>

definition to_binary64 :: "rat \<Rightarrow> jsnum" where
  "to_binary64 q =
     (if q = 0 then Num 0
      else
        let a = \<bar>q\<bar>;
            e = max (ilog2 a) (- 1022);
            ulp = pow2 (e - 52);
            r = of_int (round_half_even (a / ulp)) * ulp
        in if pow2 1024 \<le> r then (if 0 < q then PosInfinity else NegInfinity)
           else if r = 0 then (if 0 < q then Num 0 else NegZero)
           else Num (sgn q * r))"

subsection \<open>Characters and digits\<close>

text \<open>White space among the code units below 256: tab, line feed, vertical tab, form
  feed, carriage return, space and no-break space.\<close>

definition is_white_space :: "char \<Rightarrow> bool" where
  "is_white_space c =
     (c \<in> set [CHR 0x09, CHR 0x0A, CHR 0x0B, CHR 0x0C, CHR 0x0D, CHR 0x20, CHR 0xA0])"

definition digit_value :: "char \<Rightarrow> int option" where
  "digit_value c =
     (let n = (of_char c :: int)
      in if 48 \<le> n \<and> n \<le> 57 then Some (n - 48)
         else if 97 \<le> n \<and> n \<le> 122 then Some (n - 87)
         else if 65 \<le> n \<and> n \<le> 90 then Some (n - 55)
         else None)"

definition is_digit :: "int \<Rightarrow> char \<Rightarrow> bool" where
  "is_digit R c = (case digit_value c of None \<Rightarrow> False | Some v \<Rightarrow> v < R)"

definition digits_value :: "int \<Rightarrow> string \<Rightarrow> int" where
  "digits_value R Z = foldl (\<lambda>acc c. acc * R + (case digit_value c of None \<Rightarrow> 0 | Some v \<Rightarrow> v)) 0 Z"

subsection \<open>\<^verbatim>\<open>parseInt(string)\<close>\<close>

text \<open>
  With no radix: leading white space is dropped, a sign is read, a prefix \<^verbatim>\<open>0x\<close> or
  \<^verbatim>\<open>0X\<close> selects radix 16, otherwise the radix is 10, and \<open>Z\<close> is the longest
  prefix of digits of the radix. \<open>parseInt_scan\<close> gives the sign, the radix and \<open>Z\<close>.
\<close>

definition parseInt_scan :: "string \<Rightarrow> int \<times> int \<times> string" where
  "parseInt_scan inputString =
     (let S = dropWhile is_white_space inputString;
          sign = (if S \<noteq> [] \<and> hd S = CHR ''-'' then - 1 else 1);
          S = (if S \<noteq> [] \<and> (hd S = CHR ''+'' \<or> hd S = CHR ''-'') then tl S else S);
          stripPrefix = (2 \<le> length S \<and> (take 2 S = ''0x'' \<or> take 2 S = ''0X''));
          R = (if stripPrefix then 16 else 10);
          S = (if stripPrefix then drop 2 S else S)
      in (sign, R, takeWhile (is_digit R) S))"

text \<open>An empty \<open>Z\<close> gives \<^verbatim>\<open>NaN\<close>; nothing is thrown.\<close>

definition parseInt :: "string \<Rightarrow> jsnum" where
  "parseInt inputString =
     (case parseInt_scan inputString of
        (sign, R, Z) \<Rightarrow>
          if Z = [] then NaN
          else
            let mathInt = digits_value R Z
            in if mathInt = 0 then (if sign = - 1 then NegZero else Num 0)
               else to_binary64 (of_int (sign * mathInt)))"

subsection \<open>\<^verbatim>\<open>parseFloat(string)\<close>\<close>

text \<open>
  Leading white space is dropped and the longest prefix that is a decimal literal is
  read: a sign, then \<^verbatim>\<open>Infinity\<close> or digits with an optional fraction and an optional
  exponent; the exponent counts only when it has a digit. No such prefix gives
  \<^verbatim>\<open>NaN\<close>.
\<close>

definition parseFloat :: "string \<Rightarrow> jsnum" where
  "parseFloat inputString =
     (let trimmed = dropWhile is_white_space inputString;
          negative = (trimmed \<noteq> [] \<and> hd trimmed = CHR ''-'');
          S = (if trimmed \<noteq> [] \<and> (hd trimmed = CHR ''+'' \<or> hd trimmed = CHR ''-'')
               then tl trimmed else trimmed)
      in if take 8 S = ''Infinity'' then (if negative then NegInfinity else PosInfinity)
         else
           let intDigits = takeWhile (is_digit 10) S;
               S1 = dropWhile (is_digit 10) S;
               hasDot = (S1 \<noteq> [] \<and> hd S1 = CHR ''.'');
               fracDigits = (if hasDot then takeWhile (is_digit 10) (tl S1) else []);
               S2 = (if hasDot then dropWhile (is_digit 10) (tl S1) else S1)
           in if intDigits = [] \<and> fracDigits = [] then NaN
              else
                let hasE = (S2 \<noteq> [] \<and> (hd S2 = CHR ''e'' \<or> hd S2 = CHR ''E''));
                    S3 = (if hasE then tl S2 else []);
                    expNegative = (S3 \<noteq> [] \<and> hd S3 = CHR ''-'');
                    S4 = (if S3 \<noteq> [] \<and> (hd S3 = CHR ''+'' \<or> hd S3 = CHR ''-'') then tl S3 else S3);
                    expDigits = takeWhile (is_digit 10) S4;
                    e = (if expNegative then - digits_value 10 expDigits else digits_value 10 expDigits);
                    MV = (of_int (digits_value 10 intDigits)
                          + of_int (digits_value 10 fracDigits) / 10 ^ length fracDigits) * pow10 e
                in if MV = 0 then (if negative then NegZero else Num 0)
                   else to_binary64 (if negative then - MV else MV))"

subsection \<open>\<^verbatim>\<open>BigInt(value)\<close>\<close>

text \<open>
  For a string: white space is dropped at both ends; the empty string is 0; otherwise
  the whole rest must be decimal digits with an optional sign, or digits of radix 16, 8
  or 2 after the prefix \<^verbatim>\<open>0x\<close>, \<^verbatim>\<open>0o\<close> or \<^verbatim>\<open>0b\<close>. The value is exact.
\<close>

definition StringToBigInt :: "string \<Rightarrow> int option" where
  "StringToBigInt str =
     (let t = rev (dropWhile is_white_space (rev (dropWhile is_white_space str)));
          prefix = take 2 t;
          R = (if prefix = ''0x'' \<or> prefix = ''0X'' then 16
               else if prefix = ''0o'' \<or> prefix = ''0O'' then 8
               else if prefix = ''0b'' \<or> prefix = ''0B'' then 2
               else 10 :: int)
      in if t = [] then Some 0
         else if R \<noteq> 10 then
           (let ds = drop 2 t
            in if ds \<noteq> [] \<and> list_all (is_digit R) ds then Some (digits_value R ds) else None)
         else
           (let negative = (hd t = CHR ''-'');
                ds = (if hd t = CHR ''+'' \<or> hd t = CHR ''-'' then tl t else t)
            in if ds \<noteq> [] \<and> list_all (is_digit 10) ds
               then Some (if negative then - digits_value 10 ds else digits_value 10 ds)
               else None))"

subsection \<open>Numbers to strings: \<^verbatim>\<open>Number::toString\<close>\<close>

text \<open>The decimal digits of a natural number, as characters.\<close>

function dec_digits :: "int \<Rightarrow> string" where
  "dec_digits n = (if n < 10 then [char_of (48 + n)] else dec_digits (n div 10) @ [char_of (48 + n mod 10)])"
  by pat_completeness auto
termination
  by (relation "measure nat") auto

declare dec_digits.simps [simp del]

text \<open>The decimal exponent of the leading digit of a positive rational.\<close>

definition ilog10 :: "rat \<Rightarrow> int" where
  "ilog10 a =
     (let (n, d) = quotient_of a;
          k = int (length (dec_digits n)) - int (length (dec_digits d))
      in if pow10 k \<le> a then k else k - 1)"

text \<open>
  \<^verbatim>\<open>Number::toString\<close> takes integers \<open>n\<close>, \<open>k\<close> and \<open>s\<close> with \<open>k\<close> digits in
  \<open>s\<close>, such that \<open>s * 10 ^ (n - k)\<close> rounds to the number and \<open>k\<close> is as small
  as possible; among several \<open>s\<close> the one nearest to the number. For a given \<open>k\<close>
  only the two neighbours of the number among the multiples of \<open>10 ^ (n - k)\<close> can
  do; \<open>digits_candidate\<close> gives the \<open>s\<close> and \<open>n\<close> that do, if any.
\<close>

definition digits_candidate :: "rat \<Rightarrow> int \<Rightarrow> (int \<times> int) option" where
  "digits_candidate q k =
     (let n = ilog10 q + 1;
          scaled = q / pow10 (n - k);
          lo = \<lfloor>scaled\<rfloor>;
          hi = lo + 1;
          carry = (hi = 10 ^ nat k);
          lo_ok = (to_binary64 (of_int lo * pow10 (n - k)) = Num q);
          hi_ok = (to_binary64 (of_int hi * pow10 (n - k)) = Num q);
          lower = Some (lo, n);
          upper = (if carry then Some (10 ^ nat (k - 1), n + 1) else Some (hi, n))
      in if lo_ok \<and> hi_ok then
           (if scaled - of_int lo < of_int hi - scaled then lower
            else if of_int hi - scaled < scaled - of_int lo then upper
            else if even lo then lower else upper)
         else if lo_ok then lower
         else if hi_ok then upper
         else None)"

text \<open>The search for the least \<open>k\<close>. A binary64 value needs at most 17 digits;
  the first equation is reached by no such value.\<close>

fun shortest_digits :: "rat \<Rightarrow> nat \<Rightarrow> int \<Rightarrow> int \<times> int" where
  "shortest_digits q 0 k = (\<lfloor>q / pow10 (ilog10 q + 1 - k)\<rfloor>, ilog10 q + 1)"
| "shortest_digits q (Suc fuel) k =
     (case digits_candidate q k of
        Some sn \<Rightarrow> sn
      | None \<Rightarrow> shortest_digits q fuel (k + 1))"

text \<open>
  The digits are laid out plainly when \<open>-6 < n \<le> 21\<close>, and with an exponent
  otherwise.
\<close>

definition positive_to_string :: "rat \<Rightarrow> string" where
  "positive_to_string q =
     (case shortest_digits q 17 1 of
        (s, n) \<Rightarrow>
          let ds = dec_digits s; k = int (length ds)
          in if - 6 < n \<and> n \<le> 21 then
               (if k \<le> n then ds @ replicate (nat (n - k)) CHR ''0''
                else if 0 < n then take (nat n) ds @ ''.'' @ drop (nat n) ds
                else ''0.'' @ replicate (nat (- n)) CHR ''0'' @ ds)
             else
               (let e = n - 1;
                    exponent = (if e < 0 then ''e-'' else ''e+'') @ dec_digits \<bar>e\<bar>
                in if k = 1 then ds @ exponent
                   else take 1 ds @ ''.'' @ drop 1 ds @ exponent))"

fun number_to_string :: "jsnum \<Rightarrow> string" where
  "number_to_string NaN = ''NaN''"
| "number_to_string PosInfinity = ''Infinity''"
| "number_to_string NegInfinity = ''-Infinity''"
| "number_to_string NegZero = ''0''"
| "number_to_string (Num q) =
     (if q = 0 then ''0''
      else if q < 0 then ''-'' @ positive_to_string (- q)
      else positive_to_string q)"

subsection \<open>The values of the argument list\<close>

text \<open>Strings, \<^verbatim>\<open>undefined\<close>, numbers and big integers.\<close>

datatype jsval = JUndefined | JString string | JNumber jsnum | JBigInt int

text \<open>
  \<^verbatim>\<open>parseInt\<close> and \<^verbatim>\<open>parseFloat\<close> first convert their argument to a string:
  a string is itself, a number is written by \<^verbatim>\<open>Number::toString\<close>, a big integer in
  decimal digits.
\<close>

fun to_string :: "jsval \<Rightarrow> string" where
  "to_string (JString s) = s"
| "to_string JUndefined = ''undefined''"
| "to_string (JNumber n) = number_to_string n"
| "to_string (JBigInt n) = (if n < 0 then ''-'' @ dec_digits (- n) else dec_digits n)"

text \<open>\<^verbatim>\<open>BigInt\<close> throws a \<^verbatim>\<open>SyntaxError\<close> for a string that is no integer literal,
  a \<^verbatim>\<open>TypeError\<close> for \<^verbatim>\<open>undefined\<close>, a \<^verbatim>\<open>RangeError\<close> for a number that is not an
  integer.\<close>

fun BigInt :: "jsval \<Rightarrow> js_error + int" where
  "BigInt (JString s) = (case StringToBigInt s of None \<Rightarrow> Inl SyntaxError | Some n \<Rightarrow> Inr n)"
| "BigInt JUndefined = Inl TypeError"
| "BigInt (JBigInt n) = Inr n"
| "BigInt (JNumber (Num q)) = (if of_int \<lfloor>q\<rfloor> = q then Inr \<lfloor>q\<rfloor> else Inl RangeError)"
| "BigInt (JNumber NegZero) = Inr 0"
| "BigInt (JNumber n) = Inl RangeError"

section \<open>Main: argument coercion\<close>

text \<open>
  The argument list is a JavaScript array. Reading past its end gives
  \<^verbatim>\<open>undefined\<close>; storing at or past its end extends it, and the elements skipped are
  holes, which read as \<^verbatim>\<open>undefined\<close> and are passed as \<^verbatim>\<open>undefined\<close> by the spread
  \<^verbatim>\<open>func(...args)\<close>.
\<close>

definition array_get :: "jsval list \<Rightarrow> nat \<Rightarrow> jsval" where
  "array_get args i = (if i < length args then args ! i else JUndefined)"

definition array_set :: "jsval list \<Rightarrow> nat \<Rightarrow> jsval \<Rightarrow> jsval list" where
  "array_set args i v =
     (if i < length args then args[i := v]
      else args @ replicate (i - length args) JUndefined @ [v])"

text \<open>
  \<^verbatim>\<open>
  switch (funcInfo.params[i]) {
  case 'i32': args[i] = parseInt(args[i]);    break;
  case 'i64': args[i] = BigInt(args[i]);      break;
  case 'f32':
  case 'f64': args[i] = parseFloat(args[i]);  break;
  }
  \<close>
  The switch has no default case.
\<close>

definition switch_param :: "string \<Rightarrow> jsval list \<Rightarrow> nat \<Rightarrow> js_error + jsval list" where
  "switch_param t args i =
     (if t = ''i32'' then
        Inr (array_set args i (JNumber (parseInt (to_string (array_get args i)))))
      else if t = ''i64'' then
        (case BigInt (array_get args i) of
           Inl e \<Rightarrow> Inl e
         | Inr n \<Rightarrow> Inr (array_set args i (JBigInt n)))
      else if t = ''f32'' \<or> t = ''f64'' then
        Inr (array_set args i (JNumber (parseFloat (to_string (array_get args i)))))
      else Inr args)"

text \<open>
  \<^verbatim>\<open>
  for (let i = 0; i < funcInfo.params.length; i++) {
      switch (funcInfo.params[i]) { ... }
  }
  \<close>
  \<open>coerce_loop i ps args\<close> is the loop from index \<open>i\<close> on; it yields the array the loop
  leaves, or the exception that ended it.
\<close>

function coerce_loop :: "nat \<Rightarrow> string list \<Rightarrow> jsval list \<Rightarrow> js_error + jsval list" where
  "coerce_loop i ps args =
     (if i < length ps then
        (case switch_param (ps ! i) args i of
           Inl e \<Rightarrow> Inl e
         | Inr args' \<Rightarrow> coerce_loop (i + 1) ps args')
      else Inr args)"
  by pat_completeness auto
termination
  by (relation "measure (\<lambda>(i, ps, args). length ps - i)") auto

declare coerce_loop.simps [simp del]

text \<open>
  \<^verbatim>\<open>
  let args = argv._.slice(1)
  let wasmInfo2 = await parseWasmInfo(binary);
  let funcInfo = wasmInfo2.funcsByName[argv.invoke];
  for (...) { ... }
  let func = instance.exports[argv.invoke];
  let result = func(...args);
  \<close>
  \<open>rest\<close> is \<^verbatim>\<open>argv._.slice(1)\<close>, the positional arguments after the file name as
  the command-line parser delivers them: each a string, or a number where the parser
  has taken the text for a number. \<open>call_arguments\<close> is the list of arguments the
  exported function is called with: the whole array after the loop. Reading
  \<^verbatim>\<open>funcInfo.params\<close> of an \<^verbatim>\<open>undefined\<close> \<^verbatim>\<open>funcInfo\<close> is a \<^verbatim>\<open>TypeError\<close>.
\<close>

definition call_arguments :: "wasm_info \<Rightarrow> string \<Rightarrow> jsval list \<Rightarrow> js_error + jsval list" where
  "call_arguments wasmInfo2 invoke rest =
     (let args = rest
      in case funcsByName wasmInfo2 invoke of
           None \<Rightarrow> Inl TypeError
         | Some funcInfo \<Rightarrow> coerce_loop 0 (params (objects wasmInfo2 ! funcInfo)) args)"

section \<open>Vocabulary of the statements\<close>

text \<open>
  \<open>unchanged_outside m m' lo hi\<close>: the memory \<open>m'\<close> has the length of \<open>m\<close> and
  the same byte at every index below \<open>lo\<close> and at every index from \<open>hi\<close> on.
\<close>

definition unchanged_outside :: "memory \<Rightarrow> memory \<Rightarrow> int \<Rightarrow> int \<Rightarrow> bool" where
  "unchanged_outside m m' lo hi =
     (length m' = length m \<and> take (nat lo) m' = take (nat lo) m \<and> drop (nat hi) m' = drop (nat hi) m)"

text \<open>
  The statements that both status wrappers run after the stable call, with the snapshot,
  the memory the stable call left and its result code; it lets each lemma be stated once.
\<close>

definition filestat_tail :: "u8 list \<Rightarrow> int \<Rightarrow> memory \<Rightarrow> int \<Rightarrow> memory \<times> (js_error + int)" where
  "filestat_tail backup buf mem res =
     (case decodeStruct wasi_snapshot_preview1_filestat_t (slice_bytes mem buf (buf + 64)) of
        Inl e \<Rightarrow> (mem, Inl e)
      | Inr data \<Rightarrow>
     (case encodeStruct wasi_unstable_filestat_t data of
        Inl e \<Rightarrow> (mem, Inl e)
      | Inr modified \<Rightarrow>
     (case set_at mem modified buf of
        Inl e \<Rightarrow> (mem, Inl e)
      | Inr mem \<Rightarrow>
     (case set_at mem backup (buf + 56) of
        Inl e \<Rightarrow> (mem, Inl e)
      | Inr mem \<Rightarrow> (mem, Inr res)))))"

text \<open>
  The value the switch stores for a parameter of one of the types \<^verbatim>\<open>i32\<close>,
  \<^verbatim>\<open>i64\<close>, \<^verbatim>\<open>f32\<close> and \<^verbatim>\<open>f64\<close>, as a function of the type and of the element
  read; it states what the loop leaves at each index.
\<close>

definition typed_value :: "string \<Rightarrow> jsval \<Rightarrow> js_error + jsval" where
  "typed_value t v =
     (if t = ''i32'' then Inr (JNumber (parseInt (to_string v)))
      else if t = ''i64'' then
        (case BigInt v of Inl e \<Rightarrow> Inl e | Inr n \<Rightarrow> Inr (JBigInt n))
      else Inr (JNumber (parseFloat (to_string v))))"

text \<open>
  The memory the status wrappers leave when the 64 bytes from \<open>buf\<close> lie inside the
  memory \<open>mem1\<close> that the stable call left: bytes 0 to 16 of the stable record, seven
  zero bytes (the padding and the link count), then bytes 32 to 63 of the stable record
  moved down by eight; every other byte as in \<open>mem1\<close>.
\<close>

definition relaid :: "int \<Rightarrow> memory \<Rightarrow> memory" where
  "relaid buf mem1 =
     take (nat buf) mem1
       @ (take 17 (drop (nat buf) mem1) @ replicate 7 0 @ take 32 (drop (nat buf + 32) mem1))
       @ drop (nat buf + 56) mem1"

text \<open>
  An example host. Its two status functions store one fixed stable record (device 1,
  inode 2, a regular file, 1 link, 5 bytes, times 10, 11 and 12) at \<open>buf\<close> when the 64
  bytes fit the memory, and answer 21 otherwise.
\<close>

definition example_filestat :: "u8 list" where
  "example_filestat =
     [1, 0, 0, 0, 0, 0, 0, 0,
      2, 0, 0, 0, 0, 0, 0, 0,
      4, 0, 0, 0, 0, 0, 0, 0,
      1, 0, 0, 0, 0, 0, 0, 0,
      5, 0, 0, 0, 0, 0, 0, 0,
      10, 0, 0, 0, 0, 0, 0, 0,
      11, 0, 0, 0, 0, 0, 0, 0,
      12, 0, 0, 0, 0, 0, 0, 0]"

definition example_wasi :: wasiImport where
  "example_wasi =
     \<lparr>fd_seek = (\<lambda>fd offset whence result mem. (mem, 0)),
      fd_filestat_get = (\<lambda>fd buf mem.
        if 0 \<le> buf \<and> buf + 64 \<le> int (length mem)
        then (take (nat buf) mem @ example_filestat @ drop (nat buf + 64) mem, 0)
        else (mem, 21)),
      path_filestat_get = (\<lambda>fd flags path path_len buf mem.
        if 0 \<le> buf \<and> buf + 64 \<le> int (length mem)
        then (take (nat buf) mem @ example_filestat @ drop (nat buf + 64) mem, 0)
        else (mem, 21))\<rparr>"

text \<open>
  An example memory of 72 bytes: four bytes 7, the 56 bytes of the caller's record at
  offset 4, eight sentinel bytes 170 at offsets 60 to 67, four bytes 8.
\<close>

definition example_memory :: memory where
  "example_memory = replicate 4 7 @ replicate 56 0 @ replicate 8 170 @ replicate 4 8"

text \<open>
  An example module, in the text format
  \<^verbatim>\<open>(module (func $a (export "b") (result i32) (i32.const 0))
          (func $b (export "x") (export "y") (param i32)))\<close>:
  the function \<^verbatim>\<open>$b\<close> of index 1 is exported as \<^verbatim>\<open>x\<close> and as \<^verbatim>\<open>y\<close>, and the
  function \<^verbatim>\<open>$a\<close> of index 0 is exported under the name \<^verbatim>\<open>b\<close>.
\<close>

definition example_module :: binaryen_module where
  "example_module =
     \<lparr>module_functions =
        [\<lparr>info_name = ''a'', info_params = [], info_results = [B_i32]\<rparr>,
         \<lparr>info_name = ''b'', info_params = [B_i32], info_results = []\<rparr>],
      module_exports =
        [\<lparr>exp_kind = ExternalFunction, exp_name = ''b'', exp_value = ''a''\<rparr>,
         \<lparr>exp_kind = ExternalFunction, exp_name = ''x'', exp_value = ''b''\<rparr>,
         \<lparr>exp_kind = ExternalFunction, exp_name = ''y'', exp_value = ''b''\<rparr>]\<rparr>"

section \<open>Properties\<close>

subsection \<open>The seek wrapper\<close>

text \<open>
  C3. The unstable seek wrapper forwards to the stable seek function with whence remapped
  by 0 to 1, 1 to 2 and 2 to 0, which is a bijection on the set of 0, 1 and 2; for every
  other whence it throws "Invalid whence", whatever the underlying function is and with
  the memory untouched, so the underlying function is not called.
\<close>

theorem fd_seek_whence_remap:
  "wasi_unstable_fd_seek wasi fd offset 0 result mem
     = (fst (fd_seek wasi fd offset 1 result mem), Inr (snd (fd_seek wasi fd offset 1 result mem)))
   \<and> wasi_unstable_fd_seek wasi fd offset 1 result mem
     = (fst (fd_seek wasi fd offset 2 result mem), Inr (snd (fd_seek wasi fd offset 2 result mem)))
   \<and> wasi_unstable_fd_seek wasi fd offset 2 result mem
     = (fst (fd_seek wasi fd offset 0 result mem), Inr (snd (fd_seek wasi fd offset 0 result mem)))
   \<and> bij_betw (\<lambda>w. projr (whence_switch w)) {0, 1, 2} {0, 1, 2}
   \<and> (whence \<notin> {0, 1, 2} \<longrightarrow>
        wasi_unstable_fd_seek wasi fd offset whence result mem = (mem, Inl (Thrown ''Invalid whence'')))"
proof -
  have img: "(\<lambda>w. projr (whence_switch w)) ` {0, 1, 2} = {0, 1, 2}"
    by (auto simp: whence_switch_def image_def)
  have inj: "inj_on (\<lambda>w. projr (whence_switch w)) {0, 1, 2}"
    by (auto simp: whence_switch_def inj_on_def)
  have bij: "bij_betw (\<lambda>w. projr (whence_switch w)) {0, 1, 2} {0, 1, 2}"
    using img inj by (simp add: bij_betw_def)
  show ?thesis
    using bij by (simp add: wasi_unstable_fd_seek_def whence_switch_def split: prod.split)
qed

theorem fd_seek_whence_remap_witness:
  "wasi_unstable_fd_seek
      \<lparr>fd_seek = (\<lambda>fd offset whence result mem. (mem, 0)),
       fd_filestat_get = (\<lambda>fd buf mem. (mem, 0)),
       path_filestat_get = (\<lambda>fd flags path path_len buf mem. (mem, 0))\<rparr>
      3 0 7 16 [] = ([], Inl (Thrown ''Invalid whence''))"
  using fd_seek_whence_remap [of _ 3 0 16 "[]" 7] by simp


subsection \<open>The status wrappers: what they leave untouched\<close>

lemma unchanged_outside_nth:
  "unchanged_outside m m' lo hi \<longleftrightarrow>
     length m' = length m \<and> (\<forall>i<length m. int i < lo \<or> hi \<le> int i \<longrightarrow> m' ! i = m ! i)"
proof
  assume u: "unchanged_outside m m' lo hi"
  then have len: "length m' = length m" and t: "take (nat lo) m' = take (nat lo) m"
    and d: "drop (nat hi) m' = drop (nat hi) m"
    by (simp_all add: unchanged_outside_def)
  have "m' ! i = m ! i" if "i < length m" "int i < lo \<or> hi \<le> int i" for i
  proof (cases "int i < lo")
    case True
    then have "i < nat lo" by simp
    then have "m' ! i = take (nat lo) m' ! i" "m ! i = take (nat lo) m ! i" by simp_all
    with t show ?thesis by simp
  next
    case False
    with that have h: "nat hi \<le> i" by simp
    have "m' ! i = drop (nat hi) m' ! (i - nat hi)" using h that len by simp
    also have "\<dots> = drop (nat hi) m ! (i - nat hi)" using d by simp
    also have "\<dots> = m ! i" using h that by simp
    finally show ?thesis .
  qed
  with len show "length m' = length m \<and> (\<forall>i<length m. int i < lo \<or> hi \<le> int i \<longrightarrow> m' ! i = m ! i)"
    by blast
next
  assume a: "length m' = length m \<and> (\<forall>i<length m. int i < lo \<or> hi \<le> int i \<longrightarrow> m' ! i = m ! i)"
  then have len: "length m' = length m" by simp
  have t: "take (nat lo) m' = take (nat lo) m"
    using a by (intro nth_equalityI) auto
  have d: "drop (nat hi) m' = drop (nat hi) m"
    using a by (intro nth_equalityI) auto
  show "unchanged_outside m m' lo hi"
    using len t d by (simp add: unchanged_outside_def)
qed

lemma slice_backup_empty: "0 \<le> buf \<Longrightarrow> slice_bytes mem (buf + 56) (buf + (64 - 56)) = []"
  by (simp add: slice_bytes_def Let_def)

lemma encodeStruct_length: "encodeStruct T d = Inr m \<Longrightarrow> length m = rsize T"
  by (auto simp: encodeStruct_def split: sum.splits if_splits)

lemma rsize_unstable: "rsize wasi_unstable_filestat_t = 56"
  by (simp add: wasi_unstable_filestat_t_def uint64_def uint32_def uint8_def)

lemma rsize_snapshot: "rsize wasi_snapshot_preview1_filestat_t = 64"
  by (simp add: wasi_snapshot_preview1_filestat_t_def uint64_def uint32_def uint8_def)

lemma set_at_Inr:
  assumes "set_at t s off = Inr t'"
  shows "0 \<le> off" "int (length s) + off \<le> int (length t)"
    "t' = take (nat off) t @ s @ drop (nat off + length s) t"
  using assms by (auto simp: set_at_def split: if_splits)

lemma set_at_frame:
  assumes "set_at t s off = Inr t'" "k \<le> nat off" "nat off + length s \<le> j"
  shows "length t' = length t" "take k t' = take k t" "drop j t' = drop j t"
proof -
  note r = set_at_Inr [OF assms(1)]
  show "length t' = length t" using r by auto
  show "take k t' = take k t" using r assms(2) by (auto simp: min_def)
  show "drop j t' = drop j t" using r assms(3) by auto
qed


lemma fd_filestat_get_tail:
  "wasi_unstable_fd_filestat_get wasi fd buf mem =
     filestat_tail (slice_bytes mem (buf + 56) (buf + (64 - 56))) buf
       (fst (fd_filestat_get wasi fd buf mem)) (snd (fd_filestat_get wasi fd buf mem))"
  by (cases "fd_filestat_get wasi fd buf mem")
     (simp add: wasi_unstable_fd_filestat_get_def filestat_tail_def)

lemma path_filestat_get_tail:
  "wasi_unstable_path_filestat_get wasi fd flags path path_len buf mem =
     filestat_tail (slice_bytes mem (buf + 56) (buf + (64 - 56))) buf
       (fst (path_filestat_get wasi fd flags path path_len buf mem))
       (snd (path_filestat_get wasi fd flags path path_len buf mem))"
  by (cases "path_filestat_get wasi fd flags path path_len buf mem")
     (simp add: wasi_unstable_path_filestat_get_def filestat_tail_def)

lemma filestat_tail_cases:
  "fst (filestat_tail backup buf mem1 res) = mem1 \<or>
   (\<exists>modified mem2. length modified = 56 \<and> set_at mem1 modified buf = Inr mem2 \<and>
      (fst (filestat_tail backup buf mem1 res) = mem2 \<or>
       (\<exists>mem3. set_at mem2 backup (buf + 56) = Inr mem3 \<and> fst (filestat_tail backup buf mem1 res) = mem3)))"
  by (auto simp: filestat_tail_def rsize_unstable dest!: encodeStruct_length split: sum.splits)

lemma filestat_tail_frame:
  assumes "backup = slice_bytes mem (buf + 56) (buf + (64 - 56))"
  shows "unchanged_outside mem1 (fst (filestat_tail backup buf mem1 res)) buf (buf + 56)"
proof -
  consider (same) "fst (filestat_tail backup buf mem1 res) = mem1"
    | (written) modified mem2 where "length modified = 56" "set_at mem1 modified buf = Inr mem2"
        "fst (filestat_tail backup buf mem1 res) = mem2 \<or>
         (\<exists>mem3. set_at mem2 backup (buf + 56) = Inr mem3 \<and> fst (filestat_tail backup buf mem1 res) = mem3)"
    using filestat_tail_cases by blast
  then show ?thesis
  proof cases
    case same
    then show ?thesis by (simp add: unchanged_outside_def)
  next
    case written
    have pos: "0 \<le> buf" using set_at_Inr(1) [OF written(2)] .
    then have "backup = []" using assms slice_backup_empty by simp
    with written(3) have "fst (filestat_tail backup buf mem1 res) = mem2"
      by (auto simp: set_at_def split: if_splits)
    moreover have "length mem2 = length mem1" "take (nat buf) mem2 = take (nat buf) mem1"
      "drop (nat (buf + 56)) mem2 = drop (nat (buf + 56)) mem1"
      using set_at_frame [OF written(2), of "nat buf" "nat (buf + 56)"] pos written(1)
      by (simp_all add: nat_add_distrib)
    ultimately show ?thesis by (simp add: unchanged_outside_def)
  qed
qed

lemma unchanged_outside_trans:
  assumes "unchanged_outside m m1 lo hi" "unchanged_outside m1 m2 lo' hi'" "lo \<le> lo'" "hi' \<le> hi"
  shows "unchanged_outside m m2 lo hi"
  using assms unfolding unchanged_outside_nth by auto

lemma filestat_tail_frame64:
  assumes "unchanged_outside mem mem1 buf (buf + 64)"
  shows "unchanged_outside mem
           (fst (filestat_tail (slice_bytes mem (buf + 56) (buf + (64 - 56))) buf mem1 res)) buf (buf + 64)"
  by (rule unchanged_outside_trans [OF assms filestat_tail_frame [OF refl]]) simp_all

text \<open>
  C10. Whenever the underlying stable status function leaves the memory unchanged outside
  the 64 bytes from \<open>buf\<close>, so does the unstable wrapper, by descriptor and by path,
  whether it returns or throws: its own writes stay inside those 64 bytes.
\<close>

theorem filestat_get_frame:
  "(unchanged_outside mem (fst (fd_filestat_get wasi fd buf mem)) buf (buf + 64) \<longrightarrow>
      unchanged_outside mem (fst (wasi_unstable_fd_filestat_get wasi fd buf mem)) buf (buf + 64))
   \<and> (unchanged_outside mem (fst (path_filestat_get wasi fd flags path path_len buf mem)) buf (buf + 64) \<longrightarrow>
      unchanged_outside mem (fst (wasi_unstable_path_filestat_get wasi fd flags path path_len buf mem))
        buf (buf + 64))"
  using filestat_tail_frame64 by (simp add: fd_filestat_get_tail path_filestat_get_tail)

theorem filestat_get_frame_witness:
  "unchanged_outside example_memory (fst (fd_filestat_get example_wasi 3 4 example_memory)) 4 68
   \<and> unchanged_outside example_memory
        (fst (wasi_unstable_fd_filestat_get example_wasi 3 4 example_memory)) 4 68
   \<and> unchanged_outside example_memory
        (fst (path_filestat_get example_wasi 3 0 100 5 4 example_memory)) 4 68
   \<and> unchanged_outside example_memory
        (fst (wasi_unstable_path_filestat_get example_wasi 3 0 100 5 4 example_memory)) 4 68"
proof -
  have fd: "unchanged_outside example_memory
      (fst (fd_filestat_get example_wasi 3 4 example_memory)) 4 (4 + 64)"
    by (simp add: unchanged_outside_def example_wasi_def example_memory_def example_filestat_def)
  have path: "unchanged_outside example_memory
      (fst (path_filestat_get example_wasi 3 0 100 5 4 example_memory)) 4 (4 + 64)"
    by (simp add: unchanged_outside_def example_wasi_def example_memory_def example_filestat_def)
  show ?thesis
    using filestat_get_frame [of example_memory example_wasi 3 4 0 100 5] fd path by simp
qed

subsection \<open>The status wrappers when the record lies inside the memory\<close>

text \<open>
  For every memory and every \<open>buf\<close> with the 64 bytes from \<open>buf\<close> inside the memory,
  the wrappers return the result code of the stable call and leave the memory \<open>relaid\<close>:
  the four bytes of the link count at \<open>buf + 20\<close> are zero, and the eight bytes from
  \<open>buf + 56\<close> are the ones the stable call wrote.
\<close>

lemma le_value_bound: "le_value bs < 256 ^ length bs"
proof (induction bs)
  case Nil
  then show ?case by simp
next
  case (Cons b bs)
  have "unat b < 256" using unsigned_less [of b, where ?'a = nat] by simp
  with Cons show ?case by simp
qed

lemma le_bytes_le_value: "le_bytes (length bs) (le_value bs) = bs"
proof (induction bs)
  case Nil
  then show ?case by simp
next
  case (Cons b bs)
  have b: "unat b < 256" using unsigned_less [of b, where ?'a = nat] by simp
  then have "(unat b + 256 * le_value bs) mod 256 = unat b"
    and "(unat b + 256 * le_value bs) div 256 = le_value bs"
    by simp_all
  with Cons show ?case by simp
qed

lemma buffer_write_read:
  assumes "length bs = n"
  shows "buffer_writeUIntLE n (Num (of_nat (le_value bs))) buf offset =
     (if offset + n > length buf then Inl RangeError
      else Inr (take offset buf @ bs @ drop (offset + n) buf))"
proof -
  have "le_value bs < 256 ^ n" using le_value_bound [of bs] assms by simp
  then have "le_value bs < 2 ^ (8 * n)" by (simp add: power_mult)
  then have "le_value bs \<le> 2 ^ (8 * n) - 1" by simp
  then have "(of_nat (le_value bs) :: rat) \<le> of_nat (2 ^ (8 * n) - 1)"
    by (simp only: of_nat_le_iff)
  also have "(of_nat (2 ^ (8 * n) - 1) :: rat) = 2 ^ (8 * n) - 1"
    by (simp add: of_nat_diff)
  finally have "\<not> ((of_nat (le_value bs) :: rat) > 2 ^ (8 * n) - 1 \<or> (of_nat (le_value bs) :: rat) < 0)"
    by simp
  then show ?thesis
    using le_bytes_le_value [of bs] assms by (simp add: buffer_writeUIntLE_def del: of_nat_diff)
qed


lemma le_bytes_zero4: "le_bytes 4 0 = [0, 0, 0, 0]"
  by code_simp

lemma replicate56: "replicate 56 (0 :: u8) =
  [0,0,0,0,0,0,0,0, 0,0,0,0,0,0,0,0, 0,0,0,0,0,0,0,0, 0,0,0,0,0,0,0,0,
   0,0,0,0,0,0,0,0, 0,0,0,0,0,0,0,0, 0,0,0,0,0,0,0,0]"
  by (simp add: eval_nat_numeral)

lemma buffer_write_NaN4:
  "buffer_writeUIntLE 4 NaN buf offset =
     (if offset + 4 > length buf then Inl RangeError
      else Inr (take offset buf @ [0, 0, 0, 0] @ drop (offset + 4) buf))"
  by (simp add: buffer_writeUIntLE_def le_bytes_zero4)

lemma list64:
  assumes "length (xs :: 'a list) = 64"
  shows "xs = [xs ! 0, xs ! 1, xs ! 2, xs ! 3, xs ! 4, xs ! 5, xs ! 6, xs ! 7, xs ! 8, xs ! 9, xs ! 10, xs ! 11, xs ! 12, xs ! 13, xs ! 14, xs ! 15, xs ! 16, xs ! 17, xs ! 18, xs ! 19, xs ! 20, xs ! 21, xs ! 22, xs ! 23, xs ! 24, xs ! 25, xs ! 26, xs ! 27, xs ! 28, xs ! 29, xs ! 30, xs ! 31, xs ! 32, xs ! 33, xs ! 34, xs ! 35, xs ! 36, xs ! 37, xs ! 38, xs ! 39, xs ! 40, xs ! 41, xs ! 42, xs ! 43, xs ! 44, xs ! 45, xs ! 46, xs ! 47, xs ! 48, xs ! 49, xs ! 50, xs ! 51, xs ! 52, xs ! 53, xs ! 54, xs ! 55, xs ! 56, xs ! 57, xs ! 58, xs ! 59, xs ! 60, xs ! 61, xs ! 62, xs ! 63]"
proof -
  have "xs = map ((!) xs) [0..<length xs]"
    by (simp add: map_nth)
  also have "\<dots> = map ((!) xs) [0..<64]"
    by (simp only: assms)
  also have "\<dots> = [xs ! 0, xs ! 1, xs ! 2, xs ! 3, xs ! 4, xs ! 5, xs ! 6, xs ! 7, xs ! 8, xs ! 9, xs ! 10, xs ! 11, xs ! 12, xs ! 13, xs ! 14, xs ! 15, xs ! 16, xs ! 17, xs ! 18, xs ! 19, xs ! 20, xs ! 21, xs ! 22, xs ! 23, xs ! 24, xs ! 25, xs ! 26, xs ! 27, xs ! 28, xs ! 29, xs ! 30, xs ! 31, xs ! 32, xs ! 33, xs ! 34, xs ! 35, xs ! 36, xs ! 37, xs ! 38, xs ! 39, xs ! 40, xs ! 41, xs ! 42, xs ! 43, xs ! 44, xs ! 45, xs ! 46, xs ! 47, xs ! 48, xs ! 49, xs ! 50, xs ! 51, xs ! 52, xs ! 53, xs ! 54, xs ! 55, xs ! 56, xs ! 57, xs ! 58, xs ! 59, xs ! 60, xs ! 61, xs ! 62, xs ! 63]"
    by (simp add: eval_nat_numeral)
  finally show ?thesis .
qed

lemma decode_explicit:
  "decodeStruct wasi_snapshot_preview1_filestat_t
     [b0, b1, b2, b3, b4, b5, b6, b7, b8, b9, b10, b11, b12, b13, b14, b15, b16, b17, b18, b19, b20, b21, b22, b23, b24, b25, b26, b27, b28, b29, b30, b31, b32, b33, b34, b35, b36, b37, b38, b39, b40, b41, b42, b43, b44, b45, b46, b47, b48, b49, b50, b51, b52, b53, b54, b55, b56, b57, b58, b59, b60, b61, b62, b63] =
   Inr (SObject
     [(''dev'', SObject [(''lo'', SNumber (Num (of_nat (le_value [b0, b1, b2, b3])))), (''hi'', SNumber (Num (of_nat (le_value [b4, b5, b6, b7]))))]),
      (''ino'', SObject [(''lo'', SNumber (Num (of_nat (le_value [b8, b9, b10, b11])))), (''hi'', SNumber (Num (of_nat (le_value [b12, b13, b14, b15]))))]),
      (''ftype'', SNumber (Num (of_nat (le_value [b16])))),
      (''nlink'', SObject [(''lo'', SNumber (Num (of_nat (le_value [b24, b25, b26, b27])))), (''hi'', SNumber (Num (of_nat (le_value [b28, b29, b30, b31]))))]),
      (''size'', SObject [(''lo'', SNumber (Num (of_nat (le_value [b32, b33, b34, b35])))), (''hi'', SNumber (Num (of_nat (le_value [b36, b37, b38, b39]))))]),
      (''atim'', SObject [(''lo'', SNumber (Num (of_nat (le_value [b40, b41, b42, b43])))), (''hi'', SNumber (Num (of_nat (le_value [b44, b45, b46, b47]))))]),
      (''mtim'', SObject [(''lo'', SNumber (Num (of_nat (le_value [b48, b49, b50, b51])))), (''hi'', SNumber (Num (of_nat (le_value [b52, b53, b54, b55]))))]),
      (''ctim'', SObject [(''lo'', SNumber (Num (of_nat (le_value [b56, b57, b58, b59])))), (''hi'', SNumber (Num (of_nat (le_value [b60, b61, b62, b63]))))])])"
  by (simp add: decodeStruct_def wasi_snapshot_preview1_filestat_t_def uint64_def uint32_def
      uint8_def buffer_readUIntLE_def del: le_value.simps)

lemma replicate3: "replicate 3 (0 :: u8) = [0, 0, 0]"
  by (simp add: numeral_3_eq_3)

lemma encode_explicit:
  "encodeStruct wasi_unstable_filestat_t
     (SObject
     [(''dev'', SObject [(''lo'', SNumber (Num (of_nat (le_value [b0, b1, b2, b3])))), (''hi'', SNumber (Num (of_nat (le_value [b4, b5, b6, b7]))))]),
      (''ino'', SObject [(''lo'', SNumber (Num (of_nat (le_value [b8, b9, b10, b11])))), (''hi'', SNumber (Num (of_nat (le_value [b12, b13, b14, b15]))))]),
      (''ftype'', SNumber (Num (of_nat (le_value [b16])))),
      (''nlink'', SObject [(''lo'', SNumber (Num (of_nat (le_value [b24, b25, b26, b27])))), (''hi'', SNumber (Num (of_nat (le_value [b28, b29, b30, b31]))))]),
      (''size'', SObject [(''lo'', SNumber (Num (of_nat (le_value [b32, b33, b34, b35])))), (''hi'', SNumber (Num (of_nat (le_value [b36, b37, b38, b39]))))]),
      (''atim'', SObject [(''lo'', SNumber (Num (of_nat (le_value [b40, b41, b42, b43])))), (''hi'', SNumber (Num (of_nat (le_value [b44, b45, b46, b47]))))]),
      (''mtim'', SObject [(''lo'', SNumber (Num (of_nat (le_value [b48, b49, b50, b51])))), (''hi'', SNumber (Num (of_nat (le_value [b52, b53, b54, b55]))))]),
      (''ctim'', SObject [(''lo'', SNumber (Num (of_nat (le_value [b56, b57, b58, b59])))), (''hi'', SNumber (Num (of_nat (le_value [b60, b61, b62, b63]))))])]) =
   Inr [b0, b1, b2, b3, b4, b5, b6, b7, b8, b9, b10, b11, b12, b13, b14, b15, b16, 0, 0, 0, 0, 0, 0, 0, b32, b33, b34, b35, b36, b37, b38, b39, b40, b41, b42, b43, b44, b45, b46, b47, b48, b49, b50, b51, b52, b53, b54, b55, b56, b57, b58, b59, b60, b61, b62, b63]"
  by (simp add: encodeStruct_def wasi_unstable_filestat_t_def uint64_def uint32_def
      uint8_def encoder_write_def encoder_fill_def buffer_fill_def new_EncodeBuffer_def
      encoder_buffer_def slice_bytes_def buffer_write_read buffer_write_NaN4 replicate56 replicate3
      del: le_value.simps)


lemma replicate7: "replicate 7 (0 :: u8) = [0, 0, 0, 0, 0, 0, 0]"
  by code_simp

lemma relayout:
  assumes "length rec = 64"
  shows "\<exists>data. decodeStruct wasi_snapshot_preview1_filestat_t rec = Inr data
    \<and> encodeStruct wasi_unstable_filestat_t data = Inr (take 17 rec @ replicate 7 0 @ drop 32 rec)"
proof -
  have rec: "rec = [rec ! 0, rec ! 1, rec ! 2, rec ! 3, rec ! 4, rec ! 5, rec ! 6, rec ! 7, rec ! 8, rec ! 9, rec ! 10, rec ! 11, rec ! 12, rec ! 13, rec ! 14, rec ! 15, rec ! 16, rec ! 17, rec ! 18, rec ! 19, rec ! 20, rec ! 21, rec ! 22, rec ! 23, rec ! 24, rec ! 25, rec ! 26, rec ! 27, rec ! 28, rec ! 29, rec ! 30, rec ! 31, rec ! 32, rec ! 33, rec ! 34, rec ! 35, rec ! 36, rec ! 37, rec ! 38, rec ! 39, rec ! 40, rec ! 41, rec ! 42, rec ! 43, rec ! 44, rec ! 45, rec ! 46, rec ! 47, rec ! 48, rec ! 49, rec ! 50, rec ! 51, rec ! 52, rec ! 53, rec ! 54, rec ! 55, rec ! 56, rec ! 57, rec ! 58, rec ! 59, rec ! 60, rec ! 61, rec ! 62, rec ! 63]"
    by (rule list64 [OF assms])
  have out: "take 17 rec @ replicate 7 0 @ drop 32 rec =
      take 17 [rec ! 0, rec ! 1, rec ! 2, rec ! 3, rec ! 4, rec ! 5, rec ! 6, rec ! 7, rec ! 8, rec ! 9, rec ! 10, rec ! 11, rec ! 12, rec ! 13, rec ! 14, rec ! 15, rec ! 16, rec ! 17, rec ! 18, rec ! 19, rec ! 20, rec ! 21, rec ! 22, rec ! 23, rec ! 24, rec ! 25, rec ! 26, rec ! 27, rec ! 28, rec ! 29, rec ! 30, rec ! 31, rec ! 32, rec ! 33, rec ! 34, rec ! 35, rec ! 36, rec ! 37, rec ! 38, rec ! 39, rec ! 40, rec ! 41, rec ! 42, rec ! 43, rec ! 44, rec ! 45, rec ! 46, rec ! 47, rec ! 48, rec ! 49, rec ! 50, rec ! 51, rec ! 52, rec ! 53, rec ! 54, rec ! 55, rec ! 56, rec ! 57, rec ! 58, rec ! 59, rec ! 60, rec ! 61, rec ! 62, rec ! 63] @ replicate 7 0 @ drop 32 [rec ! 0, rec ! 1, rec ! 2, rec ! 3, rec ! 4, rec ! 5, rec ! 6, rec ! 7, rec ! 8, rec ! 9, rec ! 10, rec ! 11, rec ! 12, rec ! 13, rec ! 14, rec ! 15, rec ! 16, rec ! 17, rec ! 18, rec ! 19, rec ! 20, rec ! 21, rec ! 22, rec ! 23, rec ! 24, rec ! 25, rec ! 26, rec ! 27, rec ! 28, rec ! 29, rec ! 30, rec ! 31, rec ! 32, rec ! 33, rec ! 34, rec ! 35, rec ! 36, rec ! 37, rec ! 38, rec ! 39, rec ! 40, rec ! 41, rec ! 42, rec ! 43, rec ! 44, rec ! 45, rec ! 46, rec ! 47, rec ! 48, rec ! 49, rec ! 50, rec ! 51, rec ! 52, rec ! 53, rec ! 54, rec ! 55, rec ! 56, rec ! 57, rec ! 58, rec ! 59, rec ! 60, rec ! 61, rec ! 62, rec ! 63]"
    using rec by simp
  show ?thesis
    unfolding out
    by (subst rec, subst decode_explicit) (simp add: encode_explicit replicate7 del: le_value.simps)
qed

lemma filestat_tail_in_range:
  assumes "0 \<le> buf" "buf + 64 \<le> int (length mem1)"
  shows "filestat_tail [] buf mem1 res =
    (take (nat buf) mem1
       @ (take 17 (drop (nat buf) mem1) @ replicate 7 0 @ take 32 (drop (nat buf + 32) mem1))
       @ drop (nat buf + 56) mem1, Inr res)"
proof -
  let ?rec = "take 64 (drop (nat buf) mem1)"
  have sl: "slice_bytes mem1 buf (buf + 64) = ?rec"
    using assms by (simp add: slice_bytes_def Let_def min_def)
  have len: "length ?rec = 64" using assms by simp
  from relayout [OF len] obtain data where
    dec: "decodeStruct wasi_snapshot_preview1_filestat_t ?rec = Inr data" and
    enc: "encodeStruct wasi_unstable_filestat_t data = Inr (take 17 ?rec @ replicate 7 0 @ drop 32 ?rec)"
    by blast
  have m: "take 17 ?rec @ replicate 7 0 @ drop 32 ?rec =
      take 17 (drop (nat buf) mem1) @ replicate 7 0 @ take 32 (drop (nat buf + 32) mem1)"
  proof -
    have "drop 32 ?rec = take 32 (drop 32 (drop (nat buf) mem1))"
      by (simp add: drop_take)
    also have "drop 32 (drop (nat buf) mem1) = drop (nat buf + 32) mem1"
      by (simp add: add.commute)
    finally show ?thesis by simp
  qed
  have lm: "length (take 17 (drop (nat buf) mem1) @ replicate 7 0 @ take 32 (drop (nat buf + 32) mem1)) = 56"
    using assms by simp
  have enc': "encodeStruct wasi_unstable_filestat_t data =
      Inr (take 17 (drop (nat buf) mem1) @ replicate 7 0 @ take 32 (drop (nat buf + 32) mem1))"
    using enc unfolding m .
  show ?thesis
    using assms lm by (simp add: filestat_tail_def sl dec enc' set_at_def nat_add_distrib)
qed

lemma fd_filestat_get_in_range:
  assumes "fd_filestat_get wasi fd buf mem = (mem1, res)" "0 \<le> buf" "buf + 64 \<le> int (length mem1)"
  shows "wasi_unstable_fd_filestat_get wasi fd buf mem = (relaid buf mem1, Inr res)"
  using assms filestat_tail_in_range [OF assms(2,3)]
  by (simp add: fd_filestat_get_tail slice_backup_empty [simplified] relaid_def)

lemma path_filestat_get_in_range:
  assumes "path_filestat_get wasi fd flags path path_len buf mem = (mem1, res)"
    "0 \<le> buf" "buf + 64 \<le> int (length mem1)"
  shows "wasi_unstable_path_filestat_get wasi fd flags path path_len buf mem = (relaid buf mem1, Inr res)"
  using assms filestat_tail_in_range [OF assms(2,3)]
  by (simp add: path_filestat_get_tail slice_backup_empty [simplified] relaid_def)

lemma relaid_nlink:
  assumes "0 \<le> buf" "buf + 64 \<le> int (length mem1)"
  shows "slice_bytes (relaid buf mem1) (buf + 20) (buf + 24) = [0, 0, 0, 0]"
proof -
  have "drop (nat buf + 20) (relaid buf mem1) =
      replicate 4 0 @ take 32 (drop (nat buf + 32) mem1) @ drop (nat buf + 56) mem1"
    using assms by (simp add: relaid_def)
  moreover have "length (relaid buf mem1) = length mem1"
    using assms by (simp add: relaid_def)
  ultimately show ?thesis
    using assms by (simp add: slice_bytes_def Let_def nat_add_distrib numeral_eq_Suc)
qed

lemma relaid_trailing:
  assumes "0 \<le> buf" "buf + 64 \<le> int (length mem1)"
  shows "slice_bytes (relaid buf mem1) (buf + 56) (buf + 64) = slice_bytes mem1 (buf + 56) (buf + 64)"
proof -
  have "drop (nat buf + 56) (relaid buf mem1) = drop (nat buf + 56) mem1"
    using assms by (simp add: relaid_def)
  moreover have "length (relaid buf mem1) = length mem1"
    using assms by (simp add: relaid_def)
  ultimately show ?thesis
    using assms by (simp add: slice_bytes_def Let_def nat_add_distrib)
qed

subsection \<open>The status wrappers at the example\<close>

lemma fd_filestat_get_example:
  "wasi_unstable_fd_filestat_get example_wasi 3 4 example_memory =
     ([7, 7, 7, 7,
       1, 0, 0, 0, 0, 0, 0, 0,
       2, 0, 0, 0, 0, 0, 0, 0,
       4, 0, 0, 0,
       0, 0, 0, 0,
       5, 0, 0, 0, 0, 0, 0, 0,
       10, 0, 0, 0, 0, 0, 0, 0,
       11, 0, 0, 0, 0, 0, 0, 0,
       12, 0, 0, 0, 0, 0, 0, 0,
       12, 0, 0, 0, 0, 0, 0, 0,
       8, 8, 8, 8], Inr 0)"
  by code_simp

lemma path_filestat_get_example:
  "wasi_unstable_path_filestat_get example_wasi 3 0 100 5 4 example_memory =
     ([7, 7, 7, 7,
       1, 0, 0, 0, 0, 0, 0, 0,
       2, 0, 0, 0, 0, 0, 0, 0,
       4, 0, 0, 0,
       0, 0, 0, 0,
       5, 0, 0, 0, 0, 0, 0, 0,
       10, 0, 0, 0, 0, 0, 0, 0,
       11, 0, 0, 0, 0, 0, 0, 0,
       12, 0, 0, 0, 0, 0, 0, 0,
       12, 0, 0, 0, 0, 0, 0, 0,
       8, 8, 8, 8], Inr 0)"
  by code_simp

text \<open>
  C1. The eight bytes after the unstable record are not preserved. The snapshot is
  \<^verbatim>\<open>mem.slice(buf+56, buf+(64-56))\<close>, whose end \<open>buf + 8\<close> lies before its start, so it
  is empty and the restore writes nothing. At the example the sentinel bytes 170 at
  offsets 60 to 67 are replaced by the change time 12 that the stable call stored there.
\<close>

theorem filestat_get_backup_lost:
  "slice_bytes example_memory (4 + 56) (4 + 64) = [170, 170, 170, 170, 170, 170, 170, 170]
   \<and> slice_bytes example_memory (4 + 56) (4 + (64 - 56)) = []
   \<and> slice_bytes (fst (wasi_unstable_fd_filestat_get example_wasi 3 4 example_memory)) (4 + 56) (4 + 64)
       = [12, 0, 0, 0, 0, 0, 0, 0]
   \<and> slice_bytes (fst (wasi_unstable_path_filestat_get example_wasi 3 0 100 5 4 example_memory))
        (4 + 56) (4 + 64)
       = [12, 0, 0, 0, 0, 0, 0, 0]"
  by code_simp

text \<open>
  C2. The link count is not carried over. The stable record decodes \<^verbatim>\<open>nlink\<close> to an
  object with the fields \<^verbatim>\<open>lo\<close> and \<^verbatim>\<open>hi\<close>; the unstable schema encodes
  \<^verbatim>\<open>nlink\<close> as a 32-bit number, the object converts to \<^verbatim>\<open>NaN\<close>, and four zero
  bytes are written. At the example the stable call reports 1 link (the eight bytes at
  \<open>buf + 24\<close>) and the wrapper leaves 0 in the four bytes at \<open>buf + 20\<close>.
\<close>

theorem fd_filestat_get_nlink_zero:
  "slice_bytes (fst (fd_filestat_get example_wasi 3 4 example_memory)) (4 + 24) (4 + 32)
       = [1, 0, 0, 0, 0, 0, 0, 0]
   \<and> slice_bytes (fst (wasi_unstable_fd_filestat_get example_wasi 3 4 example_memory)) (4 + 20) (4 + 24)
       = [0, 0, 0, 0]"
  by code_simp


subsection \<open>The introspector\<close>

text \<open>
  Where no export of a function has the name of another function, and the names of the
  functions and of the exports are distinct, every export of a function refers to the
  object of that function, the one \<^verbatim>\<open>funcsByIndex\<close> refers to at its index.
\<close>

lemma functions_loop_objects:
  "objects (functions_loop k fs r) =
     objects r @ map (\<lambda>(i, info). \<lparr>index = i, params = map decodeType (info_params info),
                                     results = map decodeType (info_results info)\<rparr>)
                    (zip [k..<k + length fs] fs)"
proof (induction fs arbitrary: k r)
  case Nil
  then show ?case by simp
next
  case (Cons info fs)
  have "[k..<k + length (info # fs)] = k # [Suc k..<Suc k + length fs]"
    by (simp add: upt_rec)
  then show ?case
    by (simp add: Cons.IH Let_def)
qed

lemma functions_loop_byIndex:
  "funcsByIndex (functions_loop k fs r) j =
     (if k \<le> j \<and> j < k + length fs then Some (length (objects r) + (j - k)) else funcsByIndex r j)"
proof (induction fs arbitrary: k r)
  case Nil
  then show ?case by auto
next
  case (Cons info fs)
  show ?case
    by (auto simp: Cons.IH Let_def)
qed

lemma functions_loop_byName_other:
  "n \<notin> set (map info_name fs) \<Longrightarrow> funcsByName (functions_loop k fs r) n = funcsByName r n"
  by (induction fs arbitrary: k r) (auto simp: Let_def)

lemma functions_loop_byName:
  "distinct (map info_name fs) \<Longrightarrow> i < length fs \<Longrightarrow>
   funcsByName (functions_loop k fs r) (info_name (fs ! i)) = Some (length (objects r) + i)"
proof (induction fs arbitrary: k r i)
  case Nil
  then show ?case by simp
next
  case (Cons info fs)
  show ?case
  proof (cases i)
    case 0
    then show ?thesis
      using Cons.prems by (simp add: functions_loop_byName_other Let_def)
  next
    case (Suc i')
    then show ?thesis
      using Cons.prems Cons.IH [of i'] by (simp add: Let_def)
  qed
qed

lemma exports_loop_objects [simp]:
  "objects (exports_loop exps r) = objects r" "funcsByIndex (exports_loop exps r) = funcsByIndex r"
  by (induction exps arbitrary: r) (simp_all add: Let_def)

lemma exports_loop_byName_other:
  "n \<notin> set (map exp_name (filter (\<lambda>e. exp_kind e = ExternalFunction) exps)) \<Longrightarrow>
   funcsByName (exports_loop exps r) n = funcsByName r n"
proof (induction exps arbitrary: r)
  case Nil
  then show ?case by simp
next
  case (Cons ex exps)
  show ?case
  proof (cases "exp_kind ex = ExternalFunction")
    case True
    with Cons.prems have ne: "n \<noteq> exp_name ex"
      and rest: "n \<notin> set (map exp_name (filter (\<lambda>e. exp_kind e = ExternalFunction) exps))"
      by auto
    show ?thesis using True ne Cons.IH [OF rest] by (simp add: Let_def)
  next
    case False
    with Cons.prems have
      rest: "n \<notin> set (map exp_name (filter (\<lambda>e. exp_kind e = ExternalFunction) exps))"
      by simp
    show ?thesis using False Cons.IH [OF rest] by simp
  qed
qed

lemma exports_loop_alias:
  assumes "distinct (map exp_name (filter (\<lambda>e. exp_kind e = ExternalFunction) exps))"
    and "\<forall>e\<in>set exps. exp_kind e = ExternalFunction \<longrightarrow> exp_value e \<in> I"
    and "\<forall>e\<in>set exps. exp_kind e = ExternalFunction \<longrightarrow> exp_name e \<in> I \<longrightarrow> exp_name e = exp_value e"
    and "\<forall>n\<in>I. funcsByName r n = orig n"
  shows "(\<forall>n\<in>I. funcsByName (exports_loop exps r) n = orig n)
    \<and> (\<forall>e\<in>set exps. exp_kind e = ExternalFunction \<longrightarrow>
          funcsByName (exports_loop exps r) (exp_name e) = orig (exp_value e))"
  using assms
proof (induction exps arbitrary: r)
  case Nil
  then show ?case by simp
next
  case (Cons ex exps)
  show ?case
  proof (cases "exp_kind ex = ExternalFunction")
    case False
    then show ?thesis using Cons.IH [of r] Cons.prems by simp
  next
    case True
    let ?r' = "r\<lparr>funcsByName := (funcsByName r)(exp_name ex := funcsByName r (exp_value ex))\<rparr>"
    have val: "funcsByName r (exp_value ex) = orig (exp_value ex)"
      using Cons.prems(2,4) True by simp
    have agree: "\<forall>n\<in>I. funcsByName ?r' n = orig n"
      using Cons.prems(3,4) True val by auto
    have d: "distinct (map exp_name (filter (\<lambda>e. exp_kind e = ExternalFunction) exps))"
      using Cons.prems(1) True by simp
    have fresh: "exp_name ex \<notin> set (map exp_name (filter (\<lambda>e. exp_kind e = ExternalFunction) exps))"
      using Cons.prems(1) True by simp
    note ih = Cons.IH [of ?r', OF d _ _ agree]
    have ih': "(\<forall>n\<in>I. funcsByName (exports_loop exps ?r') n = orig n)
      \<and> (\<forall>e\<in>set exps. exp_kind e = ExternalFunction \<longrightarrow>
            funcsByName (exports_loop exps ?r') (exp_name e) = orig (exp_value e))"
      using ih Cons.prems(2,3) by simp
    have self: "funcsByName (exports_loop exps ?r') (exp_name ex) = orig (exp_value ex)"
      using exports_loop_byName_other [OF fresh, of ?r'] val by simp
    show ?thesis
      using True ih' self by (simp add: Let_def)
  qed
qed

lemma parseWasmInfo_alias:
  assumes "distinct (map info_name (module_functions m))"
    and "distinct (map exp_name (filter (\<lambda>e. exp_kind e = ExternalFunction) (module_exports m)))"
    and "\<forall>e\<in>set (module_exports m). exp_kind e = ExternalFunction \<longrightarrow>
           exp_value e \<in> set (map info_name (module_functions m))"
    and "\<forall>e\<in>set (module_exports m). exp_kind e = ExternalFunction \<longrightarrow>
           exp_name e \<in> set (map info_name (module_functions m)) \<longrightarrow> exp_name e = exp_value e"
    and "e \<in> set (module_exports m)" "exp_kind e = ExternalFunction"
    and "i < length (module_functions m)" "exp_value e = info_name (module_functions m ! i)"
  shows "funcsByName (parseWasmInfo m) (exp_name e) = Some i
    \<and> funcsByIndex (parseWasmInfo m) i = Some i
    \<and> objects (parseWasmInfo m) ! i =
        \<lparr>index = i, params = map decodeType (info_params (module_functions m ! i)),
         results = map decodeType (info_results (module_functions m ! i))\<rparr>"
proof -
  let ?empty = "\<lparr>objects = [], funcsByIndex = Map.empty, funcsByName = Map.empty\<rparr>"
  let ?r = "functions_loop 0 (module_functions m) ?empty"
  have "funcsByName (exports_loop (module_exports m) ?r) (exp_name e) = funcsByName ?r (exp_value e)"
    using exports_loop_alias [OF assms(2,3,4), of ?r "funcsByName ?r"] assms(5,6) by simp
  also have "\<dots> = Some i"
    using functions_loop_byName [OF assms(1,7), of 0 ?empty] assms(8) by simp
  finally have a: "funcsByName (parseWasmInfo m) (exp_name e) = Some i"
    by (simp add: parseWasmInfo_def)
  have b: "funcsByIndex (parseWasmInfo m) i = Some i"
    using assms(7) by (simp add: parseWasmInfo_def functions_loop_byIndex)
  have c: "objects (parseWasmInfo m) ! i =
        \<lparr>index = i, params = map decodeType (info_params (module_functions m ! i)),
         results = map decodeType (info_results (module_functions m ! i))\<rparr>"
    using assms(7) by (simp add: parseWasmInfo_def functions_loop_objects)
  from a b c show ?thesis by simp
qed

text \<open>
  C8. Export aliases can name the wrong signature. The internal names and the export
  names share the one table \<^verbatim>\<open>funcsByName\<close>, and an export is resolved by looking its
  internal name up in that table, so an earlier export whose public name equals the
  internal name of another function shadows it. In the example module the function of
  index 1 is exported as \<^verbatim>\<open>x\<close> and \<^verbatim>\<open>y\<close>; both names refer to the object of
  function 0, while \<^verbatim>\<open>funcsByIndex[1]\<close> refers to the object of function 1, and the two
  objects differ.
\<close>

theorem parseWasmInfo_alias_shadowed:
  "funcsByName (parseWasmInfo example_module) ''x'' = Some 0
   \<and> funcsByName (parseWasmInfo example_module) ''y'' = Some 0
   \<and> funcsByIndex (parseWasmInfo example_module) 1 = Some 1
   \<and> objects (parseWasmInfo example_module) =
       [\<lparr>index = 0, params = [], results = [''i32'']\<rparr>,
        \<lparr>index = 1, params = [''i32''], results = []\<rparr>]"
  by (simp add: parseWasmInfo_def example_module_def)

subsection \<open>The choice of what to run\<close>

lemma startsWith_wasi_truthy: "startsWith i_module ''wasi_'' \<Longrightarrow> truthy (Some i_module)"
  by (auto simp: startsWith_def truthy_def)

lemma wasiVersion_loop_truthy:
  "v = None \<or> truthy v \<Longrightarrow> wasiVersion_loop ms v = None \<or> truthy (wasiVersion_loop ms v)"
proof (induction ms arbitrary: v)
  case Nil
  then show ?case by simp
next
  case (Cons i_module ms)
  show ?case
  proof (cases "startsWith i_module ''wasi_''")
    case True
    then show ?thesis using Cons.IH [of "Some i_module"] startsWith_wasi_truthy by simp
  next
    case False
    then show ?thesis using Cons.IH [OF Cons.prems] by simp
  qed
qed

lemma analyze_wasiVersion:
  "wasiVersion (analyze expectedImports module_exps) = None
   \<or> truthy (wasiVersion (analyze expectedImports module_exps))"
  using wasiVersion_loop_truthy [of None expectedImports] by (simp add: analyze_def)

lemma dispatch_cases:
  "(\<not> unsupported_version info \<and> name \<noteq> [] \<and> name \<notin> set (exportedFuncs info) \<longrightarrow>
      dispatch (Some name) info = Fatal (''Function not found: '' @ name))
   \<and> (\<not> truthy invoke \<and> \<not> truthy (wasiVersion info) \<and> exportedFuncs info = [f] \<and> f \<noteq> [] \<longrightarrow>
      dispatch invoke info = InvokeFunction f)
   \<and> (\<not> truthy invoke \<and> wasi_defined info \<and> \<not> unsupported_version info \<longrightarrow>
      dispatch invoke info = WasiStart)
   \<and> (\<not> truthy invoke \<and> \<not> wasi_defined info \<and> length (exportedFuncs info) \<noteq> 1 \<longrightarrow>
      dispatch invoke info = Threw TypeError)"
  by (auto simp: dispatch_def auto_invoke_def truthy_def start_wasi_def wasi_defined_def
      unsupported_version_def split: option.splits)



subsection \<open>Argument coercion: the loop\<close>

lemma switch_param_unsupported: "t \<notin> {''i32'', ''i64'', ''f32'', ''f64''} \<Longrightarrow> switch_param t args i = Inr args"
  by (simp add: switch_param_def)

lemma array_set_length: "i < length args \<Longrightarrow> length (array_set args i v) = length args"
  by (simp add: array_set_def)

lemma array_set_length_ge: "length args \<le> length (array_set args i v)"
  by (simp add: array_set_def)

lemma array_set_other: "j < length args \<Longrightarrow> j \<noteq> i \<Longrightarrow> array_set args i v ! j = args ! j"
  by (simp add: array_set_def nth_append)

lemma switch_param_length_ge: "switch_param t args i = Inr args' \<Longrightarrow> length args \<le> length args'"
  by (auto simp: switch_param_def array_set_length_ge split: if_splits sum.splits)

lemma switch_param_length: "switch_param t args i = Inr args' \<Longrightarrow> i < length args \<Longrightarrow> length args' = length args"
  by (auto simp: switch_param_def array_set_length split: if_splits sum.splits)

lemma switch_param_other:
  "switch_param t args i = Inr args' \<Longrightarrow> j < length args \<Longrightarrow> j \<noteq> i \<Longrightarrow> args' ! j = args ! j"
  by (auto simp: switch_param_def array_set_other split: if_splits sum.splits)

lemma coerce_loop_untouched:
  "coerce_loop i ps args = Inr typed \<Longrightarrow> j < length args \<Longrightarrow>
   j < i \<or> length ps \<le> j \<or> ps ! j \<notin> {''i32'', ''i64'', ''f32'', ''f64''} \<Longrightarrow>
   typed ! j = args ! j"
proof (induction i ps args rule: coerce_loop.induct)
  case (1 i ps args)
  show ?case
  proof (cases "i < length ps")
    case False
    with "1.prems"(1) show ?thesis by (simp add: coerce_loop.simps)
  next
    case True
    with "1.prems"(1) obtain args' where sw: "switch_param (ps ! i) args i = Inr args'"
      and rest: "coerce_loop (i + 1) ps args' = Inr typed"
      by (auto simp: coerce_loop.simps [of i] split: sum.splits)
    have keep: "args' ! j = args ! j"
    proof (cases "j = i")
      case True
      with \<open>i < length ps\<close> "1.prems"(3) have "ps ! i \<notin> {''i32'', ''i64'', ''f32'', ''f64''}" by auto
      with sw show ?thesis by (simp add: switch_param_unsupported)
    next
      case False
      then show ?thesis using switch_param_other [OF sw "1.prems"(2)] by simp
    qed
    have len: "j < length args'" using switch_param_length_ge [OF sw] "1.prems"(2) by simp
    have cond: "j < i + 1 \<or> length ps \<le> j \<or> ps ! j \<notin> {''i32'', ''i64'', ''f32'', ''f64''}"
      using "1.prems"(3) by auto
    have "typed ! j = args' ! j"
      using "1.IH" [OF True sw rest len cond] .
    with keep show ?thesis by simp
  qed
qed

lemma coerce_loop_length:
  "coerce_loop i ps args = Inr typed \<Longrightarrow> length ps \<le> length args \<Longrightarrow> length typed = length args"
proof (induction i ps args rule: coerce_loop.induct)
  case (1 i ps args)
  show ?case
  proof (cases "i < length ps")
    case False
    with "1.prems"(1) show ?thesis by (simp add: coerce_loop.simps)
  next
    case True
    with "1.prems"(1) obtain args' where sw: "switch_param (ps ! i) args i = Inr args'"
      and rest: "coerce_loop (i + 1) ps args' = Inr typed"
      by (auto simp: coerce_loop.simps [of i] split: sum.splits)
    have len: "length args' = length args"
      using switch_param_length [OF sw] True "1.prems"(2) by simp
    with "1.IH" [OF True sw rest] "1.prems"(2) show ?thesis by simp
  qed
qed

lemma switch_param_supported:
  "t \<in> {''i32'', ''i64'', ''f32'', ''f64''} \<Longrightarrow>
   switch_param t args i =
     (case typed_value t (array_get args i) of
        Inl e \<Rightarrow> Inl e
      | Inr v \<Rightarrow> Inr (array_set args i v))"
  by (auto simp: switch_param_def typed_value_def split: sum.splits)

lemma array_get_set_same: "array_get (array_set args i v) i = v"
  by (simp add: array_get_def array_set_def nth_append)

lemma array_get_set_other: "j \<noteq> i \<Longrightarrow> array_get (array_set args i v) j = array_get args j"
  by (auto simp: array_get_def array_set_def nth_append)

lemma array_set_length_gt: "i < length (array_set args i v)"
  by (simp add: array_set_def)

lemma switch_param_get_other:
  "switch_param t args i = Inr args' \<Longrightarrow> j \<noteq> i \<Longrightarrow> array_get args' j = array_get args j"
  by (auto simp: switch_param_def array_get_set_other split: if_splits sum.splits)

lemma coerce_loop_length_ge:
  "coerce_loop i ps args = Inr typed \<Longrightarrow> length args \<le> length typed"
proof (induction i ps args rule: coerce_loop.induct)
  case (1 i ps args)
  show ?case
  proof (cases "i < length ps")
    case False
    with "1.prems" show ?thesis by (simp add: coerce_loop.simps)
  next
    case True
    with "1.prems" obtain args' where sw: "switch_param (ps ! i) args i = Inr args'"
      and rest: "coerce_loop (i + 1) ps args' = Inr typed"
      by (auto simp: coerce_loop.simps [of i] split: sum.splits)
    from "1.IH" [OF True sw rest] switch_param_length_ge [OF sw] show ?thesis by simp
  qed
qed

lemma coerce_loop_typed:
  "coerce_loop i ps args = Inr typed \<Longrightarrow> i \<le> j \<Longrightarrow> j < length ps \<Longrightarrow>
   ps ! j \<in> {''i32'', ''i64'', ''f32'', ''f64''} \<Longrightarrow>
   j < length typed \<and> typed_value (ps ! j) (array_get args j) = Inr (typed ! j)"
proof (induction i ps args rule: coerce_loop.induct)
  case (1 i ps args)
  have lt: "i < length ps" using "1.prems" by simp
  with "1.prems"(1) obtain args' where sw: "switch_param (ps ! i) args i = Inr args'"
    and rest: "coerce_loop (i + 1) ps args' = Inr typed"
    by (auto simp: coerce_loop.simps [of i] split: sum.splits)
  show ?case
  proof (cases "j = i")
    case True
    with sw "1.prems"(4) obtain v where tv: "typed_value (ps ! j) (array_get args j) = Inr v"
      and a': "args' = array_set args j v"
      by (auto simp: switch_param_supported split: sum.splits)
    have len: "j < length args'" using a' by (simp add: array_set_length_gt)
    have "typed ! j = args' ! j"
      using coerce_loop_untouched [OF rest len] True by simp
    moreover have "args' ! j = v"
      using array_get_set_same [of args j v] a' len by (simp add: array_get_def)
    moreover have "length args' \<le> length typed"
      using coerce_loop_length_ge [OF rest] .
    ultimately show ?thesis using tv len by simp
  next
    case False
    with "1.prems"(2) have le: "i + 1 \<le> j" by simp
    have "array_get args' j = array_get args j"
      using switch_param_get_other [OF sw False] .
    with "1.IH" [OF lt sw rest le "1.prems"(3) "1.prems"(4)] show ?thesis by simp
  qed
qed


lemma typed_value_not_i64: "t \<noteq> ''i64'' \<Longrightarrow> \<exists>w. typed_value t v = Inr w"
  by (simp add: typed_value_def)

lemma coerce_loop_succeeds:
  "''i64'' \<notin> set ps \<Longrightarrow> \<exists>typed. coerce_loop i ps args = Inr typed"
proof (induction i ps args rule: coerce_loop.induct)
  case (1 i ps args)
  show ?case
  proof (cases "i < length ps")
    case False
    then show ?thesis by (simp add: coerce_loop.simps)
  next
    case True
    then have not64: "ps ! i \<noteq> ''i64''" using "1.prems" by (metis nth_mem)
    have "\<exists>args'. switch_param (ps ! i) args i = Inr args'"
    proof (cases "ps ! i \<in> {''i32'', ''i64'', ''f32'', ''f64''}")
      case True
      from typed_value_not_i64 [OF not64]
      obtain w where "typed_value (ps ! i) (array_get args i) = Inr w" by blast
      with True show ?thesis by (simp add: switch_param_supported)
    next
      case False
      then show ?thesis by (simp add: switch_param_unsupported)
    qed
    then obtain args' where sw: "switch_param (ps ! i) args i = Inr args'" by blast
    from "1.IH" [OF True sw "1.prems"] sw True show ?thesis
      by (simp add: coerce_loop.simps [of i])
  qed
qed

lemma call_arguments_loop:
  "funcsByName wasmInfo2 invoke = Some funcInfo \<Longrightarrow>
   call_arguments wasmInfo2 invoke rest = coerce_loop 0 (params (objects wasmInfo2 ! funcInfo)) rest"
  by (simp add: call_arguments_def)

subsection \<open>\<^verbatim>\<open>parseInt\<close>: when the result is \<^verbatim>\<open>NaN\<close>\<close>

lemma to_binary64_not_NaN: "to_binary64 q \<noteq> NaN"
  by (simp add: to_binary64_def Let_def)

lemma of_char_image: "(of_char c :: int) \<in> of_char ` set cs \<Longrightarrow> c \<in> set cs"
  by auto

lemma decimal_digit_chars:
  "is_digit 10 c \<longleftrightarrow> c \<in> set ''0123456789''"
proof
  assume "is_digit 10 c"
  then have "48 \<le> (of_char c :: int) \<and> (of_char c :: int) \<le> 57"
    by (auto simp: is_digit_def digit_value_def Let_def split: if_splits)
  then have "(of_char c :: int) \<in> {48, 49, 50, 51, 52, 53, 54, 55, 56, 57}"
    by simp arith
  also have "{48, 49, 50, 51, 52, 53, 54, 55, 56, 57} = (of_char ` set ''0123456789'' :: int set)"
    by simp
  finally show "c \<in> set ''0123456789''"
    by (rule of_char_image)
next
  assume "c \<in> set ''0123456789''"
  then show "is_digit 10 c"
    by (auto simp: is_digit_def digit_value_def)
qed

lemma hex_digit_chars:
  "is_digit 16 c \<longleftrightarrow> c \<in> set ''0123456789abcdefABCDEF''"
proof
  assume "is_digit 16 c"
  then have "48 \<le> (of_char c :: int) \<and> (of_char c :: int) \<le> 57
      \<or> 97 \<le> (of_char c :: int) \<and> (of_char c :: int) \<le> 102
      \<or> 65 \<le> (of_char c :: int) \<and> (of_char c :: int) \<le> 70"
    by (auto simp: is_digit_def digit_value_def Let_def split: if_splits)
  then have "(of_char c :: int) \<in> {48, 49, 50, 51, 52, 53, 54, 55, 56, 57,
      97, 98, 99, 100, 101, 102, 65, 66, 67, 68, 69, 70}"
    by simp arith
  also have "{48, 49, 50, 51, 52, 53, 54, 55, 56, 57,
      97, 98, 99, 100, 101, 102, 65, 66, 67, 68, 69, 70}
      = (of_char ` set ''0123456789abcdefABCDEF'' :: int set)"
    by simp
  finally show "c \<in> set ''0123456789abcdefABCDEF''"
    by (rule of_char_image)
next
  assume "c \<in> set ''0123456789abcdefABCDEF''"
  then show "is_digit 16 c"
    by (auto simp: is_digit_def digit_value_def)
qed


lemma parseInt_NaN_scan: "parseInt s = NaN \<longleftrightarrow> snd (snd (parseInt_scan s)) = []"
  by (auto simp: parseInt_def Let_def to_binary64_not_NaN split: prod.splits)

lemma takeWhile_Nil_hd: "takeWhile P xs = [] \<longleftrightarrow> xs = [] \<or> \<not> P (hd xs)"
  by (cases xs) auto

lemma parseInt_NaN_iff:
  "parseInt s = NaN \<longleftrightarrow>
     (let S = dropWhile (\<lambda>c. c \<in> set [CHR 0x09, CHR 0x0A, CHR 0x0B, CHR 0x0C, CHR 0x0D, CHR 0x20, CHR 0xA0]) s;
          S = (if S \<noteq> [] \<and> (hd S = CHR ''+'' \<or> hd S = CHR ''-'') then tl S else S)
      in if 2 \<le> length S \<and> (take 2 S = ''0x'' \<or> take 2 S = ''0X'')
         then drop 2 S = [] \<or> hd (drop 2 S) \<notin> set ''0123456789abcdefABCDEF''
         else S = [] \<or> hd S \<notin> set ''0123456789'')"
proof -
  have ws: "is_white_space = (\<lambda>c. c \<in> set [CHR 0x09, CHR 0x0A, CHR 0x0B, CHR 0x0C, CHR 0x0D, CHR 0x20, CHR 0xA0])"
    by (rule ext) (simp only: is_white_space_def)
  define S1 where "S1 = dropWhile is_white_space s"
  define S2 where "S2 = (if S1 \<noteq> [] \<and> (hd S1 = CHR ''+'' \<or> hd S1 = CHR ''-'') then tl S1 else S1)"
  define hexp where "hexp \<longleftrightarrow> 2 \<le> length S2 \<and> (take 2 S2 = ''0x'' \<or> take 2 S2 = ''0X'')"
  have scan: "snd (snd (parseInt_scan s)) =
      (if hexp then takeWhile (is_digit 16) (drop 2 S2) else takeWhile (is_digit 10) S2)"
    unfolding parseInt_scan_def Let_def S1_def [symmetric] S2_def [symmetric] hexp_def [symmetric]
    by simp
  have rhs: "(let S = dropWhile (\<lambda>c. c \<in> set [CHR 0x09, CHR 0x0A, CHR 0x0B, CHR 0x0C, CHR 0x0D, CHR 0x20, CHR 0xA0]) s;
          S = (if S \<noteq> [] \<and> (hd S = CHR ''+'' \<or> hd S = CHR ''-'') then tl S else S)
      in if 2 \<le> length S \<and> (take 2 S = ''0x'' \<or> take 2 S = ''0X'')
         then drop 2 S = [] \<or> hd (drop 2 S) \<notin> set ''0123456789abcdefABCDEF''
         else S = [] \<or> hd S \<notin> set ''0123456789'')
     \<longleftrightarrow> (if hexp then drop 2 S2 = [] \<or> hd (drop 2 S2) \<notin> set ''0123456789abcdefABCDEF''
          else S2 = [] \<or> hd S2 \<notin> set ''0123456789'')"
    unfolding Let_def ws [symmetric] S1_def [symmetric] S2_def [symmetric] hexp_def [symmetric]
    by (rule refl)
  show ?thesis
    unfolding rhs parseInt_NaN_scan scan
    by (cases hexp) (simp_all only: takeWhile_Nil_hd decimal_digit_chars hex_digit_chars if_True if_False)
qed


subsection \<open>Argument coercion: examples\<close>

text \<open>Powers by repeated squaring, for evaluation.\<close>

lemma pow2_code [code]:
  "pow2 e =
     (if e = 0 then 1
      else if e < 0 then 1 / pow2 (- e)
      else if even e then (let h = pow2 (e div 2) in h * h)
      else 2 * pow2 (e - 1))"
proof -
  have ev: "pow2 e = pow2 (e div 2) * pow2 (e div 2)" if "0 < e" "even e"
  proof -
    from that obtain k where k: "e = 2 * k" "0 < k" by (auto elim: evenE)
    then have "nat e = nat k + nat k" by simp
    then show ?thesis using k by (simp add: pow2_def power_add)
  qed
  have od: "pow2 e = 2 * pow2 (e - 1)" if "0 < e"
  proof -
    from that have "nat e = Suc (nat (e - 1))" by simp
    then show ?thesis using that by (simp add: pow2_def)
  qed
  show ?thesis
    using ev od by (auto simp: Let_def pow2_def)
qed

lemma pow10_code [code]:
  "pow10 e =
     (if e = 0 then 1
      else if e < 0 then 1 / pow10 (- e)
      else if even e then (let h = pow10 (e div 2) in h * h)
      else 10 * pow10 (e - 1))"
proof -
  have ev: "pow10 e = pow10 (e div 2) * pow10 (e div 2)" if "0 < e" "even e"
  proof -
    from that obtain k where k: "e = 2 * k" "0 < k" by (auto elim: evenE)
    then have "nat e = nat k + nat k" by simp
    then show ?thesis using k by (simp add: pow10_def power_add)
  qed
  have od: "pow10 e = 10 * pow10 (e - 1)" if "0 < e"
  proof -
    from that have "nat e = Suc (nat (e - 1))" by simp
    then show ?thesis using that by (simp add: pow10_def)
  qed
  show ?thesis
    using ev od by (auto simp: Let_def pow10_def)
qed


text \<open>\<^verbatim>\<open>Number::toString\<close> at some numbers.\<close>

lemma number_to_string_examples:
  "number_to_string (Num 1000) = ''1000''"
  "number_to_string (Num (- 5)) = ''-5''"
  "number_to_string (Num (13 / 4)) = ''3.25''"
  "number_to_string (to_binary64 (1 / 10)) = ''0.1''"
  "number_to_string (to_binary64 (10 ^ 21)) = ''1e+21''"
  "number_to_string (to_binary64 (1 / 10 ^ 7)) = ''1e-7''"
  by code_simp+

text \<open>
  An argument that reads as a number: written \<^verbatim>\<open>1e3\<close>, it is the number 1000 when the
  parser has made a number of it, and \<^verbatim>\<open>parseInt\<close> of its string \<^verbatim>\<open>"1000"\<close> is 1000;
  left a string, \<^verbatim>\<open>parseInt\<close> stops at the \<^verbatim>\<open>e\<close> and gives 1.
\<close>

lemma coerce_example_1e3:
  "coerce_loop 0 [''i32''] [JNumber (Num 1000)] = Inr [JNumber (Num 1000)]"
  "coerce_loop 0 [''i32''] [JString ''1e3''] = Inr [JNumber (Num 1)]"
  by code_simp+

lemma coerce_example_abc:
  "coerce_loop 0 [''i32''] [JString ''abc''] = Inr [JNumber NaN]"
  by code_simp

lemma coerce_example_extra_numbers:
  "coerce_loop 0 [''i32''] [JNumber (Num 1), JNumber (Num 2)] = Inr [JNumber (Num 1), JNumber (Num 2)]"
  by code_simp

lemma coerce_example_extra_strings:
  "coerce_loop 0 [''i32''] [JString ''abc'', JString ''zz''] = Inr [JNumber NaN, JString ''zz'']"
  by code_simp

lemma coerce_example_funcref:
  "coerce_loop 0 [''funcref''] (map JString [''x'']) = Inr [JString ''x'']"
  by code_simp

text \<open>The three arguments \<^verbatim>\<open>-5\<close>, \<^verbatim>\<open>9999999999\<close>, \<^verbatim>\<open>3.25\<close> delivered as numbers.\<close>

lemma coerce_example_mixed_numbers:
  "coerce_loop 0 [''i32'', ''i64'', ''f32''] [JNumber (Num (- 5)), JNumber (Num 9999999999), JNumber (Num (13 / 4))]
     = Inr [JNumber (Num (- 5)), JBigInt 9999999999, JNumber (Num (13 / 4))]"
  by code_simp

subsection \<open>Argument coercion: the claims\<close>

text \<open>
  C4, as the code has it. An \<^verbatim>\<open>i32\<close> parameter never makes coercion fail: without an
  \<^verbatim>\<open>i64\<close> parameter the loop yields a list whatever the arguments are, and where the
  parameter is \<^verbatim>\<open>i32\<close> the element is the number \<^verbatim>\<open>parseInt\<close> gives for the
  argument, read as a string. That number is \<^verbatim>\<open>NaN\<close> exactly when the string, after
  leading white space and one sign, is empty or starts with no decimal digit, or, after
  a prefix \<^verbatim>\<open>0x\<close> or \<^verbatim>\<open>0X\<close>, is empty or starts with no hexadecimal digit.
\<close>

theorem coerce_i32_never_fails:
  "(''i64'' \<notin> set ps \<longrightarrow> (\<exists>typed. coerce_loop 0 ps args = Inr typed))
   \<and> (coerce_loop 0 ps args = Inr typed \<and> j < length ps \<and> ps ! j = ''i32'' \<longrightarrow>
        j < length typed \<and> typed ! j = JNumber (parseInt (to_string (array_get args j))))
   \<and> (parseInt s = NaN \<longleftrightarrow>
        (let S = dropWhile (\<lambda>c. c \<in> set [CHR 0x09, CHR 0x0A, CHR 0x0B, CHR 0x0C, CHR 0x0D, CHR 0x20, CHR 0xA0]) s;
             S = (if S \<noteq> [] \<and> (hd S = CHR ''+'' \<or> hd S = CHR ''-'') then tl S else S)
         in if 2 \<le> length S \<and> (take 2 S = ''0x'' \<or> take 2 S = ''0X'')
            then drop 2 S = [] \<or> hd (drop 2 S) \<notin> set ''0123456789abcdefABCDEF''
            else S = [] \<or> hd S \<notin> set ''0123456789''))"
proof (intro conjI impI)
  assume "''i64'' \<notin> set ps"
  then show "\<exists>typed. coerce_loop 0 ps args = Inr typed"
    by (rule coerce_loop_succeeds)
next
  assume a: "coerce_loop 0 ps args = Inr typed \<and> j < length ps \<and> ps ! j = ''i32''"
  then have "j < length typed \<and> typed_value (ps ! j) (array_get args j) = Inr (typed ! j)"
    using coerce_loop_typed [of 0 ps args typed j] by simp
  with a show "j < length typed" "typed ! j = JNumber (parseInt (to_string (array_get args j)))"
    by (simp_all add: typed_value_def)
next
  show "parseInt s = NaN \<longleftrightarrow>
        (let S = dropWhile (\<lambda>c. c \<in> set [CHR 0x09, CHR 0x0A, CHR 0x0B, CHR 0x0C, CHR 0x0D, CHR 0x20, CHR 0xA0]) s;
             S = (if S \<noteq> [] \<and> (hd S = CHR ''+'' \<or> hd S = CHR ''-'') then tl S else S)
         in if 2 \<le> length S \<and> (take 2 S = ''0x'' \<or> take 2 S = ''0X'')
            then drop 2 S = [] \<or> hd (drop 2 S) \<notin> set ''0123456789abcdefABCDEF''
            else S = [] \<or> hd S \<notin> set ''0123456789'')"
    by (rule parseInt_NaN_iff)
qed

theorem coerce_i32_never_fails_witness:
  "(\<exists>typed. coerce_loop 0 [''i32''] [JString ''abc''] = Inr typed)
   \<and> [JNumber NaN] ! 0 = JNumber (parseInt (to_string (array_get [JString ''abc''] 0)))
   \<and> parseInt ''abc'' = NaN
   \<and> hd ''abc'' \<notin> set ''0123456789''"
proof -
  have "parseInt ''abc'' = NaN \<longleftrightarrow> True"
    by (subst conjunct2 [OF conjunct2 [OF coerce_i32_never_fails [of "[''i32'']" "[JString ''abc'']"
          "[JNumber NaN]" 0 "''abc''"]]]) simp
  then show ?thesis
    using coerce_i32_never_fails [of "[''i32'']" "[JString ''abc'']" "[JNumber NaN]" 0 "''abc''"]
      coerce_example_abc
    by simp
qed

text \<open>
  The claim as stated fails: for the parameter list \<^verbatim>\<open>[i32]\<close> and the argument list
  \<^verbatim>\<open>["abc"]\<close> coercion does not fail, it yields the list holding \<^verbatim>\<open>NaN\<close>.
\<close>

theorem coerce_i32_abc_is_NaN:
  "coerce_loop 0 [''i32''] (map JString [''abc'']) = Inr [JNumber NaN]
   \<and> coerce_loop 0 [''i32''] (map JString [''abc'']) \<noteq> Inl SyntaxError"
  using coerce_example_abc by simp

text \<open>
  C5. For the parameter types \<^verbatim>\<open>i32\<close>, \<^verbatim>\<open>i64\<close>, \<^verbatim>\<open>f32\<close> and the raw strings
  \<^verbatim>\<open>"-5"\<close>, \<^verbatim>\<open>"9999999999"\<close>, \<^verbatim>\<open>"3.25"\<close> coercion yields the number \<open>-5\<close>, the
  big integer \<open>9999999999\<close>, exact, and the number \<open>3.25\<close>, that is \<open>13 / 4\<close>.
\<close>

theorem coerce_example_mixed:
  "coerce_loop 0 [''i32'', ''i64'', ''f32''] (map JString [''-5'', ''9999999999'', ''3.25''])
     = Inr [JNumber (Num (- 5)), JBigInt 9999999999, JNumber (Num (13 / 4))]"
  by code_simp

text \<open>
  C6, as the code has it. Let the invoked function have at least as many arguments as
  parameters. When coercion succeeds, the list the function is called with is as long as
  the argument list: every argument past the parameters stays in place, exactly as the
  command-line parser delivered it, and is part of the call; each element under a
  parameter of type \<^verbatim>\<open>i32\<close>, \<^verbatim>\<open>i64\<close>, \<^verbatim>\<open>f32\<close> or \<^verbatim>\<open>f64\<close> is the typed value
  of its argument.
\<close>

theorem call_arguments_keep_extra:
  assumes "funcsByName wasmInfo2 invoke = Some funcInfo"
    and "ps = params (objects wasmInfo2 ! funcInfo)"
    and "length ps \<le> length rest"
    and "call_arguments wasmInfo2 invoke rest = Inr typed"
  shows "length typed = length rest
    \<and> drop (length ps) typed = drop (length ps) rest
    \<and> (\<forall>j<length ps. ps ! j \<in> {''i32'', ''i64'', ''f32'', ''f64''} \<longrightarrow>
          typed_value (ps ! j) (rest ! j) = Inr (typed ! j))"
proof -
  have loop: "coerce_loop 0 ps rest = Inr typed"
    using assms(1,2,4) by (simp add: call_arguments_loop)
  have len: "length typed = length rest"
    using coerce_loop_length [OF loop] assms(3) by simp
  have "drop (length ps) typed = drop (length ps) rest"
  proof (rule nth_equalityI)
    show "length (drop (length ps) typed) = length (drop (length ps) rest)"
      using len by simp
  next
    fix k assume "k < length (drop (length ps) typed)"
    then have k: "length ps + k < length rest" using len by simp
    have "typed ! (length ps + k) = rest ! (length ps + k)"
      by (rule coerce_loop_untouched [OF loop k]) simp
    then show "drop (length ps) typed ! k = drop (length ps) rest ! k"
      using k len by simp
  qed
  moreover have "typed_value (ps ! j) (rest ! j) = Inr (typed ! j)"
    if "j < length ps" "ps ! j \<in> {''i32'', ''i64'', ''f32'', ''f64''}" for j
    using coerce_loop_typed [OF loop _ that] that(1) assms(3) by (simp add: array_get_def)
  ultimately show ?thesis using len by simp
qed

theorem call_arguments_keep_extra_witness:
  "length [JNumber NaN, JString ''zz''] = length [JString ''abc'', JString ''zz'']
   \<and> drop (length [''i32'']) [JNumber NaN, JString ''zz'']
       = drop (length [''i32'']) [JString ''abc'', JString ''zz'']
   \<and> typed_value ''i32'' (JString ''abc'') = Inr (JNumber NaN)"
  using call_arguments_keep_extra [of
      "\<lparr>objects = [\<lparr>index = 0, params = [''i32''], results = [''i32'']\<rparr>],
        funcsByIndex = [0 \<mapsto> 0], funcsByName = [''f'' \<mapsto> 0]\<rparr>" "''f''" 0 "[''i32'']"
      "[JString ''abc'', JString ''zz'']" "[JNumber NaN, JString ''zz'']"]
    coerce_example_extra_strings
  by (simp add: call_arguments_def)

text \<open>
  The claim as stated fails: a function of one parameter is called with two arguments.
  For the arguments \<^verbatim>\<open>1\<close> and \<^verbatim>\<open>2\<close>, which the parser delivers as numbers, the call
  is \<^verbatim>\<open>f(1, 2)\<close>; for \<^verbatim>\<open>abc\<close> and \<^verbatim>\<open>zz\<close>, delivered as strings, it is
  \<^verbatim>\<open>f(NaN, "zz")\<close>.
\<close>

theorem call_arguments_extra_is_passed:
  "call_arguments
      \<lparr>objects = [\<lparr>index = 0, params = [''i32''], results = [''i32'']\<rparr>],
       funcsByIndex = [0 \<mapsto> 0], funcsByName = [''f'' \<mapsto> 0]\<rparr> ''f''
      [JNumber (Num 1), JNumber (Num 2)]
     = Inr [JNumber (Num 1), JNumber (Num 2)]
   \<and> call_arguments
      \<lparr>objects = [\<lparr>index = 0, params = [''i32''], results = [''i32'']\<rparr>],
       funcsByIndex = [0 \<mapsto> 0], funcsByName = [''f'' \<mapsto> 0]\<rparr> ''f''
      [JString ''abc'', JString ''zz'']
     = Inr [JNumber NaN, JString ''zz'']
   \<and> length [JNumber (Num 1), JNumber (Num 2)] \<noteq> length [''i32'']"
  using coerce_example_extra_numbers coerce_example_extra_strings by (simp add: call_arguments_def)

text \<open>
  C7, as the code has it. A parameter whose type is none of \<^verbatim>\<open>i32\<close>, \<^verbatim>\<open>i64\<close>,
  \<^verbatim>\<open>f32\<close>, \<^verbatim>\<open>f64\<close> raises no error: the switch has no case for it, the iteration at
  its index does nothing, and the element at that index is the same after the loop as
  before.
\<close>

theorem coerce_skips_unsupported:
  assumes "i < length ps" "ps ! i \<notin> {''i32'', ''i64'', ''f32'', ''f64''}"
  shows "coerce_loop i ps args = coerce_loop (Suc i) ps args
    \<and> (\<forall>typed. coerce_loop 0 ps args = Inr typed \<and> i < length args \<longrightarrow> typed ! i = args ! i)"
  using assms coerce_loop_untouched [of 0 ps args _ i]
  by (auto simp: coerce_loop.simps [of i] switch_param_unsupported)

theorem coerce_skips_unsupported_witness:
  "coerce_loop 0 [''funcref''] [JString ''x''] = coerce_loop (Suc 0) [''funcref''] [JString ''x'']
   \<and> [JString ''x''] ! 0 = [JString ''x''] ! 0
   \<and> coerce_loop 0 [''funcref''] [JString ''x''] = Inr [JString ''x'']"
  using coerce_skips_unsupported [of 0 "[''funcref'']" "[JString ''x'']"] coerce_example_funcref
  by simp

text \<open>
  The claim as stated fails: for a parameter of type \<^verbatim>\<open>funcref\<close> coercion does not
  fail, it yields the raw list.
\<close>

theorem coerce_funcref_no_error:
  "coerce_loop 0 [decodeType B_funcref] (map JString [''x'']) = Inr [JString ''x'']
   \<and> coerce_loop 0 [decodeType B_none] (map JString [''x'']) = Inr [JString ''x'']"
  by code_simp

end
